theory Spec2Isabelle
  imports Main "HOL-Library.Word" "HOL-Library.Signed_Division"
begin

section \<open>The tile\_screen overlay: data model\<close>

text \<open>
  The program is one Go file: \<^verbatim>\<open>main\<close> creates an overlay window whose message
  callback closes over four variables (\<^verbatim>\<open>info\<close>, \<^verbatim>\<open>selecting\<close>, \<^verbatim>\<open>selection\<close>,
  \<^verbatim>\<open>tiles\<close>), reads the persisted tile count, places the overlay on the work area of the
  monitor under the foreground window and runs the message loop.

  Go's \<^verbatim>\<open>int32\<close> is \<^typ>\<open>32 word\<close> read with \<^const>\<open>sint\<close> and compared with the signed
  orders; \<^verbatim>\<open>uintptr\<close> and window handles are \<^typ>\<open>64 word\<close>. Go's \<^verbatim>\<open>int\<close> is modelled
  by \<^typ>\<open>int\<close>: every \<^verbatim>\<open>int\<close> the program computes is built from \<^verbatim>\<open>int32\<close> values by one
  division, one multiplication by the same divisor and a few additions, so it stays far
  inside the 64-bit range and never wraps. Go's \<^verbatim>\<open>/\<close> and \<^verbatim>\<open>%\<close> truncate towards zero
  (\<open>sdiv\<close>, \<open>smod\<close>) and panic on a zero divisor.
\<close>

type_synonym int32 = "32 word"
type_synonym uintptr = "64 word"
type_synonym HWND = "64 word"
type_synonym HMONITOR = "64 word"
type_synonym byte = "8 word"

record RECT =
  Left :: int32
  Top :: int32
  Right :: int32
  Bottom :: int32

text \<open>
  Modelled from the spec: the methods \<^verbatim>\<open>Width\<close> and \<^verbatim>\<open>Height\<close> of \<^verbatim>\<open>w32.RECT\<close> belong to
  the library package \<^verbatim>\<open>w32\<close>, whose source is not part of the repository. The spec's
  work area is a rectangle (left, top, right, bottom) with a width and a height; the
  results are \<^verbatim>\<open>int32\<close> (the program stores them in \<^verbatim>\<open>int32\<close> fields), so the
  subtraction wraps.
\<close>

definition Width :: "RECT \<Rightarrow> int32" where
  "Width r = Right r - Left r"

definition Height :: "RECT \<Rightarrow> int32" where
  "Height r = Bottom r - Top r"

record MONITORINFO =
  RcMonitor :: RECT
  RcWork :: RECT

text \<open>The variables captured by the message callback.\<close>

record session =
  info :: MONITORINFO
  selecting :: bool
  selection :: RECT
  tiles :: int

datatype failure =
    DivideByZero
  | IndexOutOfRange
  | Panic string
  | NeverReturns

datatype show_cmd = SW_MINIMIZE | SW_RESTORE

datatype color = COLOR_HIGHLIGHT | COLOR_BTNFACE | COLOR_DESKTOP

text \<open>The calls the program makes on the window system and the file system, in order.\<close>

datatype action =
    InvalidateRect HWND
  | ShowWindow HWND show_cmd
  | CloseWindow HWND
  | SetWindowPos HWND int int int int
  | WriteFile "byte list"
  | FillRect RECT color
  | PostQuitMessage
  | DefWindowProc

datatype msg =
    WM_MOUSEMOVE
  | WM_LBUTTONDOWN
  | WM_LBUTTONUP
  | WM_PAINT
  | WM_KEYDOWN
  | WM_DESTROY
  | WM_OTHER

text \<open>
  What the program observes of its environment: the handle \<^verbatim>\<open>CreateWindowEx\<close> and the
  atom \<^verbatim>\<open>RegisterClassEx\<close> return, the result of reading the settings file (\<open>None\<close> is
  a read error), the desktop window, the monitor of each window (0 is no monitor), the
  information of each monitor (\<open>None\<close> is a failed query) and the messages dispatched by
  the message loop. The successive results of \<^verbatim>\<open>GetForegroundWindow\<close> are a list that the
  polling loops consume; when it is used up every later poll sees the overlay itself, that
  is, the loop never exits.
\<close>

record os =
  class_atom :: "16 word"
  created_window :: HWND
  settings_file :: "byte list option"
  desktop :: HWND
  monitor_from_window :: "HWND \<Rightarrow> HMONITOR"
  monitor_info :: "HMONITOR \<Rightarrow> MONITORINFO option"
  foreground :: "HWND list"
  messages :: "(msg \<times> uintptr \<times> uintptr) list"

section \<open>Helpers of the source\<close>

definition min_i32 :: "int32 \<Rightarrow> int32 \<Rightarrow> int32" where
  "min_i32 a b = (if a <s b then a else b)"

definition max_i32 :: "int32 \<Rightarrow> int32 \<Rightarrow> int32" where
  "max_i32 a b = (if b <s a then a else b)"

definition overlap :: "RECT \<Rightarrow> RECT \<Rightarrow> bool" where
  "overlap a b \<longleftrightarrow>
     Left a \<le>s Right b \<and> Left b <s Right a \<and> Top a \<le>s Bottom b \<and> Top b <s Bottom a"

text \<open>
  \<^verbatim>\<open>int32(int16(w32.LOWORD(uint32(l))))\<close> and the same with \<^verbatim>\<open>HIWORD\<close>: the low and the
  high half of the low 32 bits, read as signed 16-bit values.
\<close>

definition mouse_x :: "uintptr \<Rightarrow> int32" where
  "mouse_x l = scast (ucast (ucast l :: 32 word) :: 16 word)"

definition mouse_y :: "uintptr \<Rightarrow> int32" where
  "mouse_y l = scast (ucast (drop_bit 16 (ucast l :: 32 word)) :: 16 word)"

text \<open>
  The two polling loops \<^verbatim>\<open>for w == window { time.Sleep(tickDelay); w = GetForegroundWindow() }\<close>:
  the first observed window that is not the overlay, with the observations left over.
\<close>

fun poll :: "HWND \<Rightarrow> HWND list \<Rightarrow> (HWND \<times> HWND list) option" where
  "poll window [] = None"
| "poll window (f # fs) = (if f = window then poll window fs else Some (f, fs))"

section \<open>The message handlers\<close>

definition on_mousemove :: "HWND \<Rightarrow> session \<Rightarrow> uintptr \<Rightarrow> session \<times> action list" where
  "on_mousemove window s l =
     (if selecting s then
        let x = mouse_x l;
            y = mouse_y l;
            old = selection s;
            new = \<lparr>Left = min_i32 (Left old) x, Top = min_i32 (Top old) y,
                   Right = max_i32 (Right old) x, Bottom = max_i32 (Bottom old) y\<rparr>
        in (s\<lparr>selection := new\<rparr>, if new \<noteq> old then [InvalidateRect window] else [])
      else (s, []))"

definition on_lbuttondown :: "session \<Rightarrow> uintptr \<Rightarrow> session" where
  "on_lbuttondown s l =
     (let x = mouse_x l; y = mouse_y l
      in s\<lparr>selecting := True, selection := \<lparr>Left = x, Top = y, Right = x, Bottom = y\<rparr>\<rparr>)"

text \<open>
  Lines 73 to 94 of the button-up handler: the position and size handed to
  \<^verbatim>\<open>SetWindowPos\<close>. The divisions by \<^verbatim>\<open>tiles\<close>, \<^verbatim>\<open>tileW\<close> and \<^verbatim>\<open>tileH\<close> panic on zero,
  in the order of the source.
\<close>

definition resolve_geometry ::
  "MONITORINFO \<Rightarrow> int \<Rightarrow> RECT \<Rightarrow> failure + (int \<times> int \<times> int \<times> int)" where
  "resolve_geometry mi n sel =
     (if n = 0 then Inl DivideByZero
      else
        let width = sint (Width (RcWork mi));
            height = sint (Height (RcWork mi));
            tileW = width sdiv n;
            tileH = height sdiv n
        in if tileW = 0 \<or> tileH = 0 then Inl DivideByZero
           else
             let x = sint (Left sel) sdiv tileW * tileW;
                 y = sint (Top sel) sdiv tileH * tileH;
                 right = sint (Right sel) sdiv tileW * tileW + tileW;
                 right = (if right > width then width else right);
                 bottom = sint (Bottom sel) sdiv tileH * tileH + tileH;
                 bottom = (if bottom > height then height else bottom);
                 right = (if sint (Right sel) sdiv tileW = n - 1
                          then right + width smod tileW else right);
                 bottom = (if sint (Bottom sel) sdiv tileH = n - 1
                           then bottom + height smod tileH else bottom)
             in Inr (sint (Left (RcWork mi)) + x, sint (Top (RcWork mi)) + y,
                     right - x, bottom - y))"

definition on_lbuttonup ::
  "os \<Rightarrow> HWND \<Rightarrow> session \<Rightarrow> HWND list \<Rightarrow> failure + (session \<times> HWND list \<times> action list)" where
  "on_lbuttonup env window s fg =
     (if selecting s then
        (case poll window fg of
           None \<Rightarrow> Inl NeverReturns
         | Some (w, fg') \<Rightarrow>
             if w = 0 \<or> w = desktop env then
               Inr (s, fg', [ShowWindow window SW_MINIMIZE, CloseWindow window])
             else if monitor_from_window env w = 0 then
               Inr (s, fg', [ShowWindow window SW_MINIMIZE, CloseWindow window])
             else
               (case resolve_geometry (info s) (tiles s) (selection s) of
                  Inl e \<Rightarrow> Inl e
                | Inr (x, y, cx, cy) \<Rightarrow>
                    Inr (s, fg',
                         [ShowWindow window SW_MINIMIZE,
                          ShowWindow w SW_RESTORE,
                          SetWindowPos w x y cx cy,
                          WriteFile [word_of_int (tiles s)],
                          CloseWindow window])))
      else Inr (s, fg, []))"

text \<open>The rectangle of cell \<open>(x, y)\<close> in the paint loop, for tile size \<open>w\<close> by \<open>h\<close>.\<close>

definition cell_rect :: "int \<Rightarrow> int \<Rightarrow> int \<Rightarrow> int \<Rightarrow> RECT" where
  "cell_rect w h x y =
     \<lparr>Left = word_of_int (x * w) + 2, Top = word_of_int (y * h) + 2,
      Right = word_of_int ((x + 1) * w) - 4, Bottom = word_of_int ((y + 1) * h) - 4\<rparr>"

definition paint_cell :: "RECT \<Rightarrow> int \<Rightarrow> int \<Rightarrow> int \<Rightarrow> int \<Rightarrow> action" where
  "paint_cell sel w h x y =
     (let r = cell_rect w h x y
      in FillRect r (if overlap r sel then COLOR_DESKTOP else COLOR_BTNFACE))"

definition on_paint :: "session \<Rightarrow> failure + action list" where
  "on_paint s =
     (if tiles s = 0 then Inl DivideByZero
      else
        let w = sint (Width (RcWork (info s))) sdiv tiles s;
            h = sint (Height (RcWork (info s))) sdiv tiles s
        in Inr (FillRect \<lparr>Left = 0, Top = 0, Right = Width (RcWork (info s)),
                           Bottom = Height (RcWork (info s))\<rparr> COLOR_HIGHLIGHT
                # concat (map (\<lambda>x. map (\<lambda>y. paint_cell (selection s) w h x y)
                                         [0 .. tiles s - 1])
                              [0 .. tiles s - 1])))"

definition VK_ESCAPE :: uintptr where
  "VK_ESCAPE = 0x1B"

definition on_keydown :: "HWND \<Rightarrow> session \<Rightarrow> uintptr \<Rightarrow> session \<times> action list" where
  "on_keydown window s w =
     (if \<not> selecting s \<and> 0x32 \<le> w \<and> w \<le> 0x39 then
        (s\<lparr>tiles := sint (w - 0x30)\<rparr>, [InvalidateRect window])
      else if w = VK_ESCAPE then (s, [CloseWindow window])
      else (s, []))"

text \<open>The callback: one message, the captured variables before and after, the calls made.\<close>

fun wndproc ::
  "os \<Rightarrow> HWND \<Rightarrow> session \<Rightarrow> HWND list \<Rightarrow> msg \<times> uintptr \<times> uintptr
     \<Rightarrow> failure + (session \<times> HWND list \<times> action list)" where
  "wndproc env window s fg (WM_MOUSEMOVE, w, l) =
     (let (s', acts) = on_mousemove window s l in Inr (s', fg, acts))"
| "wndproc env window s fg (WM_LBUTTONDOWN, w, l) = Inr (on_lbuttondown s l, fg, [])"
| "wndproc env window s fg (WM_LBUTTONUP, w, l) = on_lbuttonup env window s fg"
| "wndproc env window s fg (WM_PAINT, w, l) =
     (case on_paint s of Inl e \<Rightarrow> Inl e | Inr acts \<Rightarrow> Inr (s, fg, acts))"
| "wndproc env window s fg (WM_KEYDOWN, w, l) =
     (let (s', acts) = on_keydown window s w in Inr (s', fg, acts))"
| "wndproc env window s fg (WM_DESTROY, w, l) = Inr (s, fg, [PostQuitMessage])"
| "wndproc env window s fg (WM_OTHER, w, l) = Inr (s, fg, [DefWindowProc])"

section \<open>Start-up and the message loop\<close>

definition newWindow :: "os \<Rightarrow> string + HWND" where
  "newWindow env =
     (if class_atom env = 0 then Inl ''RegisterClassEx failed''
      else if created_window env = 0 then Inl ''CreateWindowEx failed''
      else Inr (created_window env))"

text \<open>
  Lines 156 to 159: \<^verbatim>\<open>data, err := ioutil.ReadFile(...)\<close>, and when \<^verbatim>\<open>err == nil\<close> the
  assignment \<^verbatim>\<open>tiles = int(min(9, max(2, int32(data[0]))))\<close>. Indexing an empty slice
  panics.
\<close>

fun read_settings :: "byte list option \<Rightarrow> int \<Rightarrow> failure + int" where
  "read_settings None t = Inr t"
| "read_settings (Some []) t = Inl IndexOutOfRange"
| "read_settings (Some (b # bs)) t = Inr (sint (min_i32 9 (max_i32 2 (ucast b))))"

definition zero_RECT :: RECT where
  "zero_RECT = \<lparr>Left = 0, Top = 0, Right = 0, Bottom = 0\<rparr>"

definition startup :: "os \<Rightarrow> failure + (HWND \<times> session \<times> HWND list \<times> action list)" where
  "startup env =
     (case newWindow env of
        Inl err \<Rightarrow> Inl (Panic err)
      | Inr window \<Rightarrow>
          (case read_settings (settings_file env) 2 of
             Inl e \<Rightarrow> Inl e
           | Inr t \<Rightarrow>
               (case poll window (foreground env) of
                  None \<Rightarrow> Inl NeverReturns
                | Some (w, fg) \<Rightarrow>
                    if monitor_from_window env w = 0 then
                      Inl (Panic ''no monitor under window detected'')
                    else
                      (case monitor_info env (monitor_from_window env w) of
                         None \<Rightarrow> Inl (Panic ''unable to query monitor info'')
                       | Some mi \<Rightarrow>
                           Inr (window,
                                \<lparr>info = mi, selecting = False, selection = zero_RECT,
                                 tiles = t\<rparr>,
                                fg,
                                [ShowWindow window SW_MINIMIZE,
                                 ShowWindow window SW_RESTORE,
                                 SetWindowPos window
                                   (sint (Left (RcWork mi))) (sint (Top (RcWork mi)))
                                   (sint (Width (RcWork mi))) (sint (Height (RcWork mi)))])))))"

text \<open>
  The callback applied to a sequence of messages, one after the other, whatever the calls
  it makes: every state the callback can be in is the result of such a sequence.
\<close>

fun run_loop ::
  "os \<Rightarrow> HWND \<Rightarrow> session \<Rightarrow> HWND list \<Rightarrow> (msg \<times> uintptr \<times> uintptr) list
     \<Rightarrow> failure + (session \<times> HWND list \<times> action list)" where
  "run_loop env window s fg [] = Inr (s, fg, [])"
| "run_loop env window s fg (m # ms) =
     (case wndproc env window s fg m of
        Inl e \<Rightarrow> Inl e
      | Inr (s', fg', acts) \<Rightarrow>
          (case run_loop env window s' fg' ms of
             Inl e \<Rightarrow> Inl e
           | Inr (s'', fg'', acts') \<Rightarrow> Inr (s'', fg'', acts @ acts')))"

text \<open>
  \<^verbatim>\<open>win.RunMainLoop\<close>: \<^verbatim>\<open>for w32.GetMessage(&msg, 0, 0, 0) != 0 { ... DispatchMessage }\<close>.
  \<^verbatim>\<open>win.CloseWindow\<close> sends \<^verbatim>\<open>WM_CLOSE\<close>, which the callback passes to \<^verbatim>\<open>DefWindowProc\<close>;
  that destroys the window, the callback answers \<^verbatim>\<open>WM_DESTROY\<close> with
  \<^verbatim>\<open>PostQuitMessage\<close>, and \<^verbatim>\<open>GetMessage\<close> returns 0. So the loop dispatches no further
  message once a handler has closed the window or posted the quit message.
\<close>

fun ends_loop :: "action \<Rightarrow> bool" where
  "ends_loop (CloseWindow h) = True"
| "ends_loop PostQuitMessage = True"
| "ends_loop _ = False"

fun RunMainLoop ::
  "os \<Rightarrow> HWND \<Rightarrow> session \<Rightarrow> HWND list \<Rightarrow> (msg \<times> uintptr \<times> uintptr) list
     \<Rightarrow> failure + (session \<times> HWND list \<times> action list)" where
  "RunMainLoop env window s fg [] = Inr (s, fg, [])"
| "RunMainLoop env window s fg (m # ms) =
     (case wndproc env window s fg m of
        Inl e \<Rightarrow> Inl e
      | Inr (s', fg', acts) \<Rightarrow>
          if list_ex ends_loop acts then Inr (s', fg', acts)
          else
            (case RunMainLoop env window s' fg' ms of
               Inl e \<Rightarrow> Inl e
             | Inr (s'', fg'', acts') \<Rightarrow> Inr (s'', fg'', acts @ acts')))"

definition main :: "os \<Rightarrow> failure + (session \<times> HWND list \<times> action list)" where
  "main env =
     (case startup env of
        Inl e \<Rightarrow> Inl e
      | Inr (window, s, fg, acts) \<Rightarrow>
          (case RunMainLoop env window s fg (messages env) of
             Inl e \<Rightarrow> Inl e
           | Inr (s', fg', acts') \<Rightarrow> Inr (s', fg', acts @ acts')))"

section \<open>Notions used to state the properties\<close>

text \<open>
  A rectangle is normalized when its left edge is not right of its right edge and its top
  edge is not below its bottom edge, as signed 32-bit values.
\<close>

definition normalized :: "RECT \<Rightarrow> bool" where
  "normalized r \<longleftrightarrow> Left r \<le>s Right r \<and> Top r \<le>s Bottom r"

text \<open>
  A selection lies inside the work area when its coordinates, which are relative to the
  overlay, are pixels of the overlay: from 0 up to, but excluding, the width and the height.
\<close>

definition inside_work_area :: "MONITORINFO \<Rightarrow> RECT \<Rightarrow> bool" where
  "inside_work_area mi sel \<longleftrightarrow>
     0 \<le> sint (Left sel) \<and> sint (Left sel) \<le> sint (Right sel) \<and>
     sint (Right sel) < sint (Width (RcWork mi)) \<and>
     0 \<le> sint (Top sel) \<and> sint (Top sel) \<le> sint (Bottom sel) \<and>
     sint (Bottom sel) < sint (Height (RcWork mi))"

text \<open>
  The resolution algorithm in the words of the specification, steps 1 to 6, over the
  integers with \<open>div\<close> and \<open>mod\<close>: the tile size, the snapped top-left corner, the clamped
  bottom-right corner, the remainder added in the last column and row, and the final
  position and size.
\<close>

definition spec_geometry :: "MONITORINFO \<Rightarrow> int \<Rightarrow> RECT \<Rightarrow> int \<times> int \<times> int \<times> int" where
  "spec_geometry mi n sel =
     (let width = sint (Width (RcWork mi));
          height = sint (Height (RcWork mi));
          tileW = width div n;
          tileH = height div n;
          x0 = (sint (Left sel) div tileW) * tileW;
          y0 = (sint (Top sel) div tileH) * tileH;
          x1 = min ((sint (Right sel) div tileW) * tileW + tileW) width;
          y1 = min ((sint (Bottom sel) div tileH) * tileH + tileH) height;
          x1 = x1 + (if sint (Right sel) div tileW = n - 1 then width mod tileW else 0);
          y1 = y1 + (if sint (Bottom sel) div tileH = n - 1 then height mod tileH else 0)
      in (sint (Left (RcWork mi)) + x0, sint (Top (RcWork mi)) + y0, x1 - x0, y1 - y0))"

text \<open>
  The same without step 5: the bottom-right corner is the clamped one of steps 3 and 4.
\<close>

definition geometry_steps_1_to_4 ::
  "MONITORINFO \<Rightarrow> int \<Rightarrow> RECT \<Rightarrow> int \<times> int \<times> int \<times> int" where
  "geometry_steps_1_to_4 mi n sel =
     (let width = sint (Width (RcWork mi));
          height = sint (Height (RcWork mi));
          tileW = width div n;
          tileH = height div n;
          x0 = (sint (Left sel) div tileW) * tileW;
          y0 = (sint (Top sel) div tileH) * tileH;
          x1 = min ((sint (Right sel) div tileW) * tileW + tileW) width;
          y1 = min ((sint (Bottom sel) div tileH) * tileH + tileH) height
      in (sint (Left (RcWork mi)) + x0, sint (Top (RcWork mi)) + y0, x1 - x0, y1 - y0))"

text \<open>
  The remainder-adjusted bounds of tile \<open>(i, j)\<close> of the grid, as a position and a size, and
  the bounds of all tiles of the \<open>n\<close> by \<open>n\<close> grid.
\<close>

definition tile_bounds :: "MONITORINFO \<Rightarrow> int \<Rightarrow> int \<Rightarrow> int \<Rightarrow> int \<times> int \<times> int \<times> int" where
  "tile_bounds mi n i j =
     (let width = sint (Width (RcWork mi));
          height = sint (Height (RcWork mi));
          tileW = width div n;
          tileH = height div n
      in (sint (Left (RcWork mi)) + i * tileW, sint (Top (RcWork mi)) + j * tileH,
          tileW + (if i = n - 1 then width mod tileW else 0),
          tileH + (if j = n - 1 then height mod tileH else 0)))"

definition all_tile_bounds :: "MONITORINFO \<Rightarrow> int \<Rightarrow> (int \<times> int \<times> int \<times> int) list" where
  "all_tile_bounds mi n =
     concat (map (\<lambda>i. map (\<lambda>j. tile_bounds mi n i j) [0 .. n - 1]) [0 .. n - 1])"

text \<open>
  The cell rectangle in the words of the specification: the tile rectangle inset by two
  pixels on each outer edge, four pixels less per axis.
\<close>

definition spec_CellRect :: "MONITORINFO \<Rightarrow> int \<Rightarrow> int \<Rightarrow> int \<Rightarrow> RECT" where
  "spec_CellRect mi n x y =
     (let tileW = sint (Width (RcWork mi)) div n;
          tileH = sint (Height (RcWork mi)) div n
      in \<lparr>Left = word_of_int (x * tileW + 2), Top = word_of_int (y * tileH + 2),
          Right = word_of_int ((x + 1) * tileW - 2),
          Bottom = word_of_int ((y + 1) * tileH - 2)\<rparr>)"

fun is_SetWindowPos :: "action \<Rightarrow> bool" where
  "is_SetWindowPos (SetWindowPos h x y cx cy) = True"
| "is_SetWindowPos _ = False"

subsection \<open>Concrete sessions\<close>

text \<open>
  A work area of 1920 by 1080 at the origin, one of 1921 by 1080, a second monitor to the
  right of the first, and an environment with both monitors: window 7 is on the first and
  window 8 on the second, the overlay has handle 100 and the desktop handle 5.
\<close>

definition work_1920 :: MONITORINFO where
  "work_1920 = \<lparr>RcMonitor = \<lparr>Left = 0, Top = 0, Right = 1920, Bottom = 1080\<rparr>,
                 RcWork = \<lparr>Left = 0, Top = 0, Right = 1920, Bottom = 1080\<rparr>\<rparr>"

definition work_1921 :: MONITORINFO where
  "work_1921 = \<lparr>RcMonitor = \<lparr>Left = 0, Top = 0, Right = 1921, Bottom = 1080\<rparr>,
                 RcWork = \<lparr>Left = 0, Top = 0, Right = 1921, Bottom = 1080\<rparr>\<rparr>"

definition work_second :: MONITORINFO where
  "work_second = \<lparr>RcMonitor = \<lparr>Left = 1920, Top = 0, Right = 3840, Bottom = 1080\<rparr>,
                   RcWork = \<lparr>Left = 1920, Top = 0, Right = 3840, Bottom = 1080\<rparr>\<rparr>"

definition two_monitors :: os where
  "two_monitors =
     \<lparr>class_atom = 1, created_window = 100, settings_file = Some [3], desktop = 5,
      monitor_from_window = (\<lambda>w. if w = 7 then 1 else if w = 8 then 2 else 0),
      monitor_info = (\<lambda>m. if m = 1 then Some work_1920
                            else if m = 2 then Some work_second else None),
      foreground = [100, 7, 100, 8],
      messages = [(WM_KEYDOWN, 0x32, 0), (WM_LBUTTONDOWN, 1, 0xA000A), (WM_LBUTTONUP, 0, 0xA000A)]\<rparr>"

definition session0 :: "MONITORINFO \<Rightarrow> int \<Rightarrow> session" where
  "session0 mi n = \<lparr>info = mi, selecting = False, selection = zero_RECT, tiles = n\<rparr>"

definition drag_1000 :: RECT where
  "drag_1000 = \<lparr>Left = 0, Top = 0, Right = 1000, Bottom = 100\<rparr>"

text \<open>
  The same environment where the user selects on the overlay and then activates the desktop:
  the message loop has a second button-up queued behind the first.
\<close>

definition desktop_run :: os where
  "desktop_run =
     two_monitors\<lparr>foreground := [100, 7, 100, 5, 8],
       messages := [(WM_LBUTTONDOWN, 1, 0xA000A), (WM_LBUTTONUP, 0, 0xA000A),
                    (WM_LBUTTONUP, 0, 0xA000A)]\<rparr>"

section \<open>Auxiliary facts\<close>

subsection \<open>Signed 32-bit values\<close>

lemma sint_byte_i32: "sint (ucast (b :: 8 word) :: 32 word) = uint b"
proof -
  have hi: "uint b < 2 ^ 31"
    using uint_bounded [of b] by simp
  have lo: "- (2 ^ 31) \<le> uint b"
    by (rule order_trans [OF _ uint_nonnegative]) simp
  have "signed_take_bit 31 (uint b) = uint b"
    by (rule signed_take_bit_int_eq_self [OF lo hi])
  then show ?thesis
    by (simp add: signed_ucast_eq)
qed

lemma clamp_byte:
  "sint (min_i32 9 (max_i32 2 (ucast (b :: 8 word)))) = min 9 (max 2 (uint b))"
  by (simp add: min_i32_def max_i32_def word_sless_alt sint_byte_i32)

lemma min_i32_sint: "sint (min_i32 a b) = min (sint a) (sint b)"
  by (simp add: min_i32_def word_sless_alt min_def)

lemma max_i32_sint: "sint (max_i32 a b) = max (sint a) (sint b)"
  by (simp add: max_i32_def word_sless_alt max_def)

lemma sint_i32: "- (2 ^ 31) \<le> k \<Longrightarrow> k < 2 ^ 31 \<Longrightarrow> sint (word_of_int k :: 32 word) = k"
  by (simp add: signed_of_int signed_take_bit_int_eq_self)

lemma sint_i32_upper: "sint (w :: 32 word) < 2 ^ 31"
  using sint_lt [of w] by simp

lemma key_digit:
  assumes "0x32 \<le> (w :: 64 word)" and "w \<le> 0x39"
  shows "sint (w - 0x30) = uint w - 48" and "50 \<le> uint w" and "uint w \<le> 57"
proof -
  from assms show lo: "50 \<le> uint w" and hi: "uint w \<le> 57"
    by (simp_all add: word_le_def)
  from lo have "uint (0x30 :: 64 word) \<le> uint w" by simp
  then have "uint (w - 0x30) = uint w - uint (0x30 :: 64 word)"
    by (simp only: uint_sub_lem)
  then have u: "uint (w - 0x30) = uint w - 48" by simp
  have "sint (w - 0x30) = signed_take_bit 63 (uint (w - 0x30))"
    by (simp add: sint_uint)
  also have "\<dots> = uint w - 48"
    unfolding u using lo hi by (intro signed_take_bit_int_eq_self) simp_all
  finally show "sint (w - 0x30) = uint w - 48" .
qed

subsection \<open>Truncating division on non-negative operands\<close>

lemma sdiv_nonneg: "0 \<le> a \<Longrightarrow> 0 < b \<Longrightarrow> a sdiv b = a div (b :: int)"
  by (simp add: signed_divide_int_def sgn_if)

lemma smod_nonneg: "0 \<le> a \<Longrightarrow> 0 < b \<Longrightarrow> a smod b = a mod (b :: int)"
  by (simp add: signed_modulo_int_def sgn_if)

lemma tile_pos: "0 < n \<Longrightarrow> n \<le> w \<Longrightarrow> 0 < w div (n :: int)"
  by (simp add: pos_imp_zdiv_pos_iff)

lemma snap_below: "0 < t \<Longrightarrow> p div t * t \<le> (p :: int)"
  by (metis mult.commute pos_mod_sign cancel_div_mod_rules(2) add.commute le_add_same_cancel1 mult_div_mod_eq)

lemma snap_above: "0 < t \<Longrightarrow> (p :: int) < p div t * t + t"
  by (smt (verit) mult_div_mod_eq mult.commute pos_mod_bound)

lemma tile_fits:
  assumes "0 < n" and "n \<le> w" and "c < n"
  shows "c * (w div n) + w div n \<le> (w :: int)"
proof -
  from assms have t: "0 \<le> w div n" by (simp add: pos_imp_zdiv_nonneg_iff)
  from assms have "c + 1 \<le> n" by simp
  then have "(c + 1) * (w div n) \<le> n * (w div n)"
    using t by (rule mult_right_mono)
  also have "n * (w div n) \<le> w"
    using assms by (smt (verit) mult_div_mod_eq pos_mod_sign)
  finally show ?thesis by (simp add: algebra_simps)
qed

lemma axis_positive:
  assumes "0 < t" and "0 \<le> p" and "p < w" and "0 \<le> e"
  shows "0 < min (p div t * t + t) w + e - p div t * (t :: int)"
proof -
  have "p div t * t \<le> p" and "p < p div t * t + t"
    using assms(1) by (simp_all add: snap_below snap_above)
  with assms show ?thesis by simp
qed

lemma axis_tile:
  assumes "0 < n" and "n \<le> w" and "p div (w div n) < n"
  shows "min (p div (w div n) * (w div n) + w div n) w + e - p div (w div n) * (w div n)
         = w div n + (e :: int)"
  using tile_fits [OF assms] by simp

lemma cell_edge_bounds:
  assumes n: "0 < n" and w: "0 \<le> w" and x: "0 \<le> x" "x < n"
  shows "0 \<le> x * (w div n)" and "(x + 1) * (w div n) \<le> (w :: int)"
proof -
  from n w have t: "0 \<le> w div n" by (simp add: pos_imp_zdiv_nonneg_iff)
  with x show "0 \<le> x * (w div n)" by simp
  from x have "x + 1 \<le> n" by simp
  then have "(x + 1) * (w div n) \<le> n * (w div n)"
    using t by (rule mult_right_mono)
  also have "n * (w div n) \<le> w"
    using n by (smt (verit) mult_div_mod_eq pos_mod_sign)
  finally show "(x + 1) * (w div n) \<le> w" .
qed

lemma cell_left_sint:
  assumes n: "2 \<le> n" "n \<le> 9" and w: "0 \<le> sint (W :: 32 word)" and x: "0 \<le> x" "x < n"
  shows "sint (word_of_int (x * (sint W div n)) + 2 :: 32 word) = x * (sint W div n) + 2"
proof -
  let ?t = "sint W div n"
  from n have n0: "0 < n" by simp
  have lo: "0 \<le> x * ?t" and hi: "(x + 1) * ?t \<le> sint W"
    using cell_edge_bounds [OF n0 w x] by simp_all
  have up: "sint W < 2 ^ 31" by (rule sint_i32_upper)
  have "x * ?t + 2 < 2 ^ 31"
  proof (cases "2 \<le> ?t")
    case True
    with hi have "x * ?t + 2 \<le> sint W" by (simp add: algebra_simps)
    with up show ?thesis by simp
  next
    case False
    with w n0 have "?t = 0 \<or> ?t = 1"
      using pos_imp_zdiv_nonneg_iff [of n "sint W"] by auto
    moreover from x n have "x * 1 < 2 ^ 31 - 2" by simp
    ultimately show ?thesis by auto
  qed
  with lo have "sint (word_of_int (x * ?t + 2) :: 32 word) = x * ?t + 2"
    by (intro sint_i32) simp_all
  then show ?thesis by simp
qed

lemma cell_right_sint:
  assumes n: "2 \<le> n" "n \<le> 9" and w: "0 \<le> sint (W :: 32 word)" and x: "0 \<le> x" "x < n"
  shows "sint (word_of_int ((x + 1) * (sint W div n)) - 4 :: 32 word)
         = (x + 1) * (sint W div n) - 4"
proof -
  let ?t = "sint W div n"
  from n have n0: "0 < n" by simp
  have hi: "(x + 1) * ?t \<le> sint W"
    using cell_edge_bounds [OF n0 w x] by simp
  from n0 w have t: "0 \<le> ?t" by (simp add: pos_imp_zdiv_nonneg_iff)
  with x have lo: "0 \<le> (x + 1) * ?t" by simp
  have up: "sint W < 2 ^ 31" by (rule sint_i32_upper)
  from lo hi up have "sint (word_of_int ((x + 1) * ?t - 4) :: 32 word) = (x + 1) * ?t - 4"
    by (intro sint_i32) simp_all
  then show ?thesis by simp
qed

lemma grid_member:
  "x \<in> set xs \<Longrightarrow> y \<in> set ys \<Longrightarrow>
   f x y \<in> set (concat (map (\<lambda>x. map (\<lambda>y. f x y) ys) xs))"
  by auto

subsection \<open>The handlers, field by field\<close>

lemma normalized_sint:
  "normalized r \<longleftrightarrow> sint (Left r) \<le> sint (Right r) \<and> sint (Top r) \<le> sint (Bottom r)"
  by (simp add: normalized_def word_sle_eq)

lemma on_mousemove_normalized:
  "normalized (selection s) \<Longrightarrow> normalized (selection (fst (on_mousemove window s l)))"
  by (auto simp add: on_mousemove_def Let_def normalized_sint min_i32_sint max_i32_sint)

lemma on_lbuttondown_normalized: "normalized (selection (on_lbuttondown s l))"
  by (simp add: on_lbuttondown_def Let_def normalized_sint)

lemma on_lbuttondown_selection:
  "selection (on_lbuttondown s l) =
     \<lparr>Left = mouse_x l, Top = mouse_y l, Right = mouse_x l, Bottom = mouse_y l\<rparr>"
  by (simp add: on_lbuttondown_def Let_def)

lemma on_lbuttondown_selecting: "selecting (on_lbuttondown s l)"
  by (simp add: on_lbuttondown_def Let_def)

lemma on_mousemove_box:
  assumes "selecting s"
  shows "sint (Left (selection (fst (on_mousemove window s l))))
           = min (sint (Left (selection s))) (sint (mouse_x l))"
    and "sint (Top (selection (fst (on_mousemove window s l))))
           = min (sint (Top (selection s))) (sint (mouse_y l))"
    and "sint (Right (selection (fst (on_mousemove window s l))))
           = max (sint (Right (selection s))) (sint (mouse_x l))"
    and "sint (Bottom (selection (fst (on_mousemove window s l))))
           = max (sint (Bottom (selection s))) (sint (mouse_y l))"
  using assms by (simp_all add: on_mousemove_def Let_def min_i32_sint max_i32_sint)

lemma on_mousemove_notify:
  "snd (on_mousemove window s l) =
     (if selection (fst (on_mousemove window s l)) \<noteq> selection s
      then [InvalidateRect window] else [])"
  by (simp add: on_mousemove_def Let_def)

lemma on_keydown_selection: "selection (fst (on_keydown window s w)) = selection s"
  by (simp add: on_keydown_def)

lemma on_keydown_info: "info (fst (on_keydown window s w)) = info s"
  by (simp add: on_keydown_def)

lemma on_keydown_tiles:
  "tiles (fst (on_keydown window s w)) \<noteq> tiles s \<Longrightarrow>
     \<not> selecting s \<and> 0x32 \<le> w \<and> w \<le> 0x39 \<and> tiles (fst (on_keydown window s w)) = uint w - 48"
  by (auto simp add: on_keydown_def key_digit(1) split: if_splits)

lemma on_mousemove_fields:
  "info (fst (on_mousemove window s l)) = info s"
  "tiles (fst (on_mousemove window s l)) = tiles s"
  by (simp_all add: on_mousemove_def Let_def)

lemma on_lbuttondown_fields:
  "info (on_lbuttondown s l) = info s" "tiles (on_lbuttondown s l) = tiles s"
  by (simp_all add: on_lbuttondown_def Let_def)

lemma on_lbuttonup_session: "on_lbuttonup env window s fg = Inr (s', fg', acts) \<Longrightarrow> s' = s"
  by (auto simp add: on_lbuttonup_def split: if_splits option.splits sum.splits prod.splits)

lemma on_lbuttonup_done:
  assumes "selecting s" and "poll window fg = Some (w, fg')"
    and "w \<noteq> 0" and "w \<noteq> desktop env" and "monitor_from_window env w \<noteq> 0"
    and "resolve_geometry (info s) (tiles s) (selection s) = Inr (x, y, cx, cy)"
  shows "on_lbuttonup env window s fg =
           Inr (s, fg',
                [ShowWindow window SW_MINIMIZE, ShowWindow w SW_RESTORE,
                 SetWindowPos w x y cx cy, WriteFile [word_of_int (tiles s)],
                 CloseWindow window])"
  using assms by (simp add: on_lbuttonup_def)

lemma wndproc_cases:
  assumes "wndproc env window s fg (k, w, l) = Inr (s', fg', acts)"
  shows "(k = WM_MOUSEMOVE \<and> s' = fst (on_mousemove window s l)) \<or>
         (k = WM_LBUTTONDOWN \<and> s' = on_lbuttondown s l) \<or>
         (k = WM_KEYDOWN \<and> s' = fst (on_keydown window s w)) \<or>
         s' = s"
  using assms
  by (cases k) (auto split: prod.splits sum.splits dest: on_lbuttonup_session)

lemma wndproc_normalized:
  "wndproc env window s fg m = Inr (s', fg', acts) \<Longrightarrow> normalized (selection s)
   \<Longrightarrow> normalized (selection s')"
proof (cases m)
  case (fields k w l)
  assume r: "wndproc env window s fg m = Inr (s', fg', acts)" and n: "normalized (selection s)"
  show ?thesis
  proof (cases k)
    case WM_MOUSEMOVE
    with r fields have "s' = fst (on_mousemove window s l)"
      by (auto split: prod.splits)
    with n show ?thesis by (simp add: on_mousemove_normalized)
  next
    case WM_LBUTTONDOWN
    with r fields show ?thesis by (auto simp add: on_lbuttondown_normalized)
  next
    case WM_LBUTTONUP
    with r fields n show ?thesis by (auto dest: on_lbuttonup_session)
  next
    case WM_PAINT
    with r fields n show ?thesis by (auto split: sum.splits)
  next
    case WM_KEYDOWN
    with r fields have "s' = fst (on_keydown window s w)"
      by (auto split: prod.splits)
    with n show ?thesis by (simp add: on_keydown_selection)
  next
    case WM_DESTROY
    with r fields n show ?thesis by auto
  next
    case WM_OTHER
    with r fields n show ?thesis by auto
  qed
qed

lemma wndproc_info:
  assumes "wndproc env window s fg m = Inr (s', fg', acts)"
  shows "info s' = info s"
proof -
  obtain k w l where m: "m = (k, w, l)" by (cases m)
  from wndproc_cases [OF assms [unfolded m]] show ?thesis
    by (auto simp add: on_mousemove_fields on_lbuttondown_fields on_keydown_info)
qed

lemma wndproc_tiles_change:
  assumes "wndproc env window s fg (k, w, l) = Inr (s', fg', acts)"
    and "tiles s' \<noteq> tiles s"
  shows "k = WM_KEYDOWN \<and> \<not> selecting s \<and> 0x32 \<le> w \<and> w \<le> 0x39 \<and> tiles s' = uint w - 48"
  using wndproc_cases [OF assms(1)] assms(2)
  by (auto simp add: on_mousemove_fields on_lbuttondown_fields dest: on_keydown_tiles)

lemma wndproc_tiles_range:
  assumes "wndproc env window s fg m = Inr (s', fg', acts)"
    and "2 \<le> tiles s" and "tiles s \<le> 9"
  shows "2 \<le> tiles s' \<and> tiles s' \<le> 9"
proof (cases "tiles s' = tiles s")
  case True
  with assms show ?thesis by simp
next
  case False
  obtain k w l where m: "m = (k, w, l)" by (cases m)
  from wndproc_tiles_change [OF assms(1) [unfolded m] False]
  have "0x32 \<le> w" "w \<le> 0x39" "tiles s' = uint w - 48" by simp_all
  with key_digit(2,3) [of w] show ?thesis by simp
qed

lemma run_loop_invariant:
  assumes step: "\<And>s fg m s' fg' acts. wndproc env window s fg m = Inr (s', fg', acts) \<Longrightarrow> P s \<Longrightarrow> P s'"
  shows "run_loop env window s fg ms = Inr (s', fg', acts) \<Longrightarrow> P s \<Longrightarrow> P s'"
proof (induction ms arbitrary: s fg s' fg' acts)
  case Nil
  then show ?case by simp
next
  case (Cons m ms)
  from Cons.prems(1) obtain s1 fg1 a1 a2 where
    first: "wndproc env window s fg m = Inr (s1, fg1, a1)" and
    rest: "run_loop env window s1 fg1 ms = Inr (s', fg', a2)"
    by (auto split: sum.splits prod.splits)
  from step [OF first Cons.prems(2)] have "P s1" .
  with Cons.IH [OF rest] show ?case .
qed

lemma run_loop_normalized:
  "run_loop env window s fg ms = Inr (s', fg', acts) \<Longrightarrow> normalized (selection s)
   \<Longrightarrow> normalized (selection s')"
proof (induction ms arbitrary: s fg s' fg' acts)
  case Nil
  then show ?case by simp
next
  case (Cons m ms)
  from Cons.prems(1) obtain s1 fg1 a1 a2 where
    step: "wndproc env window s fg m = Inr (s1, fg1, a1)" and
    rest: "run_loop env window s1 fg1 ms = Inr (s', fg', a2)"
    by (auto split: sum.splits prod.splits)
  from wndproc_normalized [OF step Cons.prems(2)] have "normalized (selection s1)" .
  with Cons.IH [OF rest] show ?case .
qed

lemma run_loop_tiles:
  assumes "run_loop env window s fg ms = Inr (s', fg', acts)"
    and "2 \<le> tiles s \<and> tiles s \<le> 9"
  shows "2 \<le> tiles s' \<and> tiles s' \<le> 9"
  using assms
  by (rule run_loop_invariant [where P = "\<lambda>s. 2 \<le> tiles s \<and> tiles s \<le> 9", rotated])
     (auto dest: wndproc_tiles_range)

lemma run_loop_info:
  assumes "run_loop env window s fg ms = Inr (s', fg', acts)"
  shows "info s' = info s"
  using assms
  by (rule run_loop_invariant [where P = "\<lambda>t. info t = info s", rotated])
     (auto dest: wndproc_info)

lemma read_settings_range:
  "read_settings d 2 = Inr t \<Longrightarrow> 2 \<le> t \<and> t \<le> 9"
  by (cases "(d, 2 :: int)" rule: read_settings.cases) (auto simp add: clamp_byte)

lemma startup_session:
  "startup env = Inr (window, s, fg, acts) \<Longrightarrow>
     selection s = zero_RECT \<and> \<not> selecting s \<and>
     read_settings (settings_file env) 2 = Inr (tiles s) \<and>
     (\<exists>w. poll window (foreground env) = Some (w, fg) \<and>
          monitor_info env (monitor_from_window env w) = Some (info s))"
  by (auto simp add: startup_def newWindow_def
      split: sum.splits option.splits if_splits prod.splits)

subsection \<open>The message loop of the source\<close>

text \<open>
  A handler that calls \<^verbatim>\<open>SetWindowPos\<close> also closes the window, so a loop that is still
  running has moved no window. A run of the loop is the callback applied to a prefix of the
  queued messages, so what holds after every message sequence holds in every run.
\<close>

lemma wndproc_geometry_ends:
  assumes "wndproc env window s fg m = Inr (s', fg', acts)"
    and "list_ex is_SetWindowPos acts"
  shows "list_ex ends_loop acts"
proof -
  obtain k w l where m: "m = (k, w, l)" by (cases m)
  show ?thesis
  proof (cases k)
    case WM_MOUSEMOVE
    with assms m show ?thesis
      by (auto simp add: on_mousemove_def Let_def split: if_splits)
  next
    case WM_LBUTTONDOWN
    with assms m show ?thesis by auto
  next
    case WM_LBUTTONUP
    with assms m show ?thesis
      by (auto simp add: on_lbuttonup_def split: if_splits option.splits sum.splits prod.splits)
  next
    case WM_PAINT
    with assms m show ?thesis
      by (auto simp add: on_paint_def Let_def paint_cell_def list_ex_iff
          split: if_splits sum.splits)
  next
    case WM_KEYDOWN
    with assms m show ?thesis
      by (auto simp add: on_keydown_def split: if_splits)
  next
    case WM_DESTROY
    with assms m show ?thesis by auto
  next
    case WM_OTHER
    with assms m show ?thesis by auto
  qed
qed

lemma RunMainLoop_no_geometry:
  "RunMainLoop env window s fg ms = Inr (s', fg', acts) \<Longrightarrow> \<not> list_ex ends_loop acts
   \<Longrightarrow> filter is_SetWindowPos acts = []"
proof (induction ms arbitrary: s fg s' fg' acts)
  case Nil
  then show ?case by simp
next
  case (Cons m ms)
  from Cons.prems(1) obtain s1 fg1 a1 where
    first: "wndproc env window s fg m = Inr (s1, fg1, a1)"
    by (auto split: sum.splits)
  show ?case
  proof (cases "list_ex ends_loop a1")
    case True
    with Cons.prems first show ?thesis by simp
  next
    case False
    with Cons.prems(1) first obtain a2 where
      rest: "RunMainLoop env window s1 fg1 ms = Inr (s', fg', a2)" and acts: "acts = a1 @ a2"
      by (auto split: sum.splits)
    from Cons.prems(2) acts have "\<not> list_ex ends_loop a2" by simp
    with Cons.IH [OF rest] have "filter is_SetWindowPos a2 = []" .
    moreover from wndproc_geometry_ends [OF first] False
    have "filter is_SetWindowPos a1 = []"
      by (auto simp add: filter_empty_conv list_ex_iff)
    ultimately show ?thesis using acts by simp
  qed
qed

lemma RunMainLoop_append:
  "RunMainLoop env window s fg pre = Inr (s1, fg1, a1) \<Longrightarrow> \<not> list_ex ends_loop a1 \<Longrightarrow>
   RunMainLoop env window s fg (pre @ post) =
     (case RunMainLoop env window s1 fg1 post of
        Inl e \<Rightarrow> Inl e
      | Inr (s2, fg2, a2) \<Rightarrow> Inr (s2, fg2, a1 @ a2))"
proof (induction pre arbitrary: s fg a1)
  case Nil
  then show ?case by (auto split: sum.splits)
next
  case (Cons m pre)
  from Cons.prems(1) obtain t fgt b1 where
    first: "wndproc env window s fg m = Inr (t, fgt, b1)"
    by (auto split: sum.splits)
  show ?case
  proof (cases "list_ex ends_loop b1")
    case True
    with Cons.prems first show ?thesis by simp
  next
    case False
    with Cons.prems(1) first obtain b2 where
      rest: "RunMainLoop env window t fgt pre = Inr (s1, fg1, b2)" and a1: "a1 = b1 @ b2"
      by (auto split: sum.splits)
    from Cons.prems(2) a1 have "\<not> list_ex ends_loop b2" by simp
    from Cons.IH [OF rest this] first False a1 show ?thesis
      by (auto split: sum.splits)
  qed
qed

lemma RunMainLoop_run_loop:
  "RunMainLoop env window s fg ms = Inr (s', fg', acts) \<Longrightarrow>
   \<exists>pre post. ms = pre @ post \<and> run_loop env window s fg pre = Inr (s', fg', acts)"
proof (induction ms arbitrary: s fg acts)
  case Nil
  then show ?case by simp
next
  case (Cons m ms)
  from Cons.prems obtain t fgt b1 where
    first: "wndproc env window s fg m = Inr (t, fgt, b1)"
    by (auto split: sum.splits)
  show ?case
  proof (cases "list_ex ends_loop b1")
    case True
    with Cons.prems first have "s' = t" "fg' = fgt" "acts = b1" by simp_all
    with first have "run_loop env window s fg [m] = Inr (s', fg', acts)" by simp
    then show ?thesis by (intro exI [of _ "[m]"] exI [of _ ms]) simp
  next
    case False
    with Cons.prems first obtain b2 where
      rest: "RunMainLoop env window t fgt ms = Inr (s', fg', b2)" and acts: "acts = b1 @ b2"
      by (auto split: sum.splits)
    from Cons.IH [OF rest] obtain pre post where
      ms: "ms = pre @ post" and r: "run_loop env window t fgt pre = Inr (s', fg', b2)"
      by blast
    from first r acts have "run_loop env window s fg (m # pre) = Inr (s', fg', acts)" by simp
    with ms show ?thesis by (intro exI [of _ "m # pre"] exI [of _ post]) simp
  qed
qed

lemma startup_actions:
  "startup env = Inr (window, s0, fg0, acts0) \<Longrightarrow>
   acts0 = [ShowWindow window SW_MINIMIZE, ShowWindow window SW_RESTORE,
            SetWindowPos window
              (sint (Left (RcWork (info s0)))) (sint (Top (RcWork (info s0))))
              (sint (Width (RcWork (info s0)))) (sint (Height (RcWork (info s0))))]"
  by (auto simp add: startup_def newWindow_def
      split: sum.splits option.splits if_splits prod.splits)

lemma on_lbuttonup_abort:
  assumes "selecting s" and "poll window fg = Some (w, fg')"
    and "w = 0 \<or> w = desktop env \<or> monitor_from_window env w = 0"
  shows "wndproc env window s fg (WM_LBUTTONUP, wp, lp) =
           Inr (s, fg', [ShowWindow window SW_MINIMIZE, CloseWindow window])"
  using assms by (auto simp add: on_lbuttonup_def)

subsection \<open>The geometry computation\<close>

lemma resolve_geometry_eq:
  assumes n: "2 \<le> n" and w: "n \<le> sint (Width (RcWork mi))"
    and h: "n \<le> sint (Height (RcWork mi))"
    and sel: "0 \<le> sint (Left sel)" "0 \<le> sint (Right sel)"
             "0 \<le> sint (Top sel)" "0 \<le> sint (Bottom sel)"
  shows "resolve_geometry mi n sel = Inr (spec_geometry mi n sel)"
proof -
  let ?W = "sint (Width (RcWork mi))" and ?H = "sint (Height (RcWork mi))"
  from n w h have pos: "0 < n" "0 \<le> ?W" "0 \<le> ?H" by simp_all
  have tw: "0 < ?W div n" and th: "0 < ?H div n"
    using n w h by (simp_all add: tile_pos)
  have dW: "?W sdiv n = ?W div n" and dH: "?H sdiv n = ?H div n"
    using pos by (simp_all add: sdiv_nonneg)
  show ?thesis
    using n tw th sel pos
    by (simp add: resolve_geometry_def spec_geometry_def dW dH Let_def
        sdiv_nonneg smod_nonneg min_def)
qed

lemma resolve_geometry_split:
  assumes n: "2 \<le> n" and w: "n \<le> sint (Width (RcWork mi))"
    and h: "n \<le> sint (Height (RcWork mi))"
  shows "resolve_geometry mi n sel =
    (let width = sint (Width (RcWork mi));
         height = sint (Height (RcWork mi));
         tileW = width div n;
         tileH = height div n;
         x0 = sint (Left sel) sdiv tileW * tileW;
         y0 = sint (Top sel) sdiv tileH * tileH;
         x1 = min (sint (Right sel) sdiv tileW * tileW + tileW) width
              + (if sint (Right sel) sdiv tileW = n - 1 then width mod tileW else 0);
         y1 = min (sint (Bottom sel) sdiv tileH * tileH + tileH) height
              + (if sint (Bottom sel) sdiv tileH = n - 1 then height mod tileH else 0)
     in Inr (sint (Left (RcWork mi)) + x0, sint (Top (RcWork mi)) + y0, x1 - x0, y1 - y0))"
proof -
  let ?W = "sint (Width (RcWork mi))" and ?H = "sint (Height (RcWork mi))"
  from n w h have pos: "0 < n" "0 \<le> ?W" "0 \<le> ?H" by simp_all
  have tw: "0 < ?W div n" and th: "0 < ?H div n"
    using n w h by (simp_all add: tile_pos)
  have dW: "?W sdiv n = ?W div n" and dH: "?H sdiv n = ?H div n"
    using pos by (simp_all add: sdiv_nonneg)
  show ?thesis
    using n tw th pos
    by (simp add: resolve_geometry_def dW dH Let_def smod_nonneg min_def)
qed

lemma zero_area_geometry:
  assumes n: "2 \<le> n" "n \<le> 9"
    and w: "n \<le> sint (Width (RcWork mi))" and h: "n \<le> sint (Height (RcWork mi))"
    and px: "0 \<le> sint (mouse_x l)" "sint (mouse_x l) < sint (Width (RcWork mi))"
    and py: "0 \<le> sint (mouse_y l)" "sint (mouse_y l) < sint (Height (RcWork mi))"
  shows "\<exists>x y cx cy.
    resolve_geometry mi n (selection (on_lbuttondown s l)) = Inr (x, y, cx, cy) \<and>
    0 < cx \<and> 0 < cy \<and>
    (let width = sint (Width (RcWork mi));
         height = sint (Height (RcWork mi));
         tileW = width div n;
         tileH = height div n;
         col = sint (mouse_x l) div tileW;
         row = sint (mouse_y l) div tileH
     in (col < n \<longrightarrow> x = sint (Left (RcWork mi)) + col * tileW \<and>
                      cx = tileW + (if col = n - 1 then width mod tileW else 0)) \<and>
        (row < n \<longrightarrow> y = sint (Top (RcWork mi)) + row * tileH \<and>
                      cy = tileH + (if row = n - 1 then height mod tileH else 0)))"
proof -
  let ?W = "sint (Width (RcWork mi))" and ?H = "sint (Height (RcWork mi))"
  let ?tw = "?W div n" and ?th = "?H div n"
  let ?px = "sint (mouse_x l)" and ?py = "sint (mouse_y l)"
  let ?c = "?px div ?tw" and ?r = "?py div ?th"
  let ?ex = "if ?c = n - 1 then ?W mod ?tw else 0"
  let ?ey = "if ?r = n - 1 then ?H mod ?th else 0"
  let ?cx = "min (?c * ?tw + ?tw) ?W + ?ex - ?c * ?tw"
  let ?cy = "min (?r * ?th + ?th) ?H + ?ey - ?r * ?th"
  from n w h have tw: "0 < ?tw" and th: "0 < ?th"
    by (simp_all add: tile_pos)
  have sel: "selection (on_lbuttondown s l) =
      \<lparr>Left = mouse_x l, Top = mouse_y l, Right = mouse_x l, Bottom = mouse_y l\<rparr>"
    by (simp add: on_lbuttondown_def Let_def)
  have cdiv: "?px sdiv ?tw = ?c" and rdiv: "?py sdiv ?th = ?r"
    using px py tw th by (simp_all add: sdiv_nonneg)
  have ex: "0 \<le> ?ex" and ey: "0 \<le> ?ey"
    using tw th by simp_all
  have res: "resolve_geometry mi n (selection (on_lbuttondown s l)) =
      Inr (sint (Left (RcWork mi)) + ?c * ?tw, sint (Top (RcWork mi)) + ?r * ?th, ?cx, ?cy)"
    using n w h by (simp add: resolve_geometry_split sel cdiv rdiv Let_def)
  have cxpos: "0 < ?cx"
    using tw px ex by (rule axis_positive)
  have cypos: "0 < ?cy"
    using th py ey by (rule axis_positive)
  have cxtile: "?c < n \<Longrightarrow> ?cx = ?tw + ?ex"
    using n w by (intro axis_tile) simp_all
  have cytile: "?r < n \<Longrightarrow> ?cy = ?th + ?ey"
    using n h by (intro axis_tile) simp_all
  show ?thesis
    unfolding res Let_def
    using cxpos cypos cxtile cytile by blast
qed

subsection \<open>The concrete sessions\<close>

lemma mouse_10_10: "mouse_x 0xA000A = 10" "mouse_y 0xA000A = 10"
  by (simp_all add: mouse_x_def mouse_y_def)

lemma mouse_30_20: "mouse_x 0x14001E = 30" "mouse_y 0x14001E = 20"
  by (simp_all add: mouse_x_def mouse_y_def)

lemma tiles_session0: "tiles (session0 mi n) = n"
  by (simp add: session0_def)

lemma startup_two_monitors:
  "startup two_monitors = Inr (100, session0 work_1920 3, [100, 8],
     [ShowWindow 100 SW_MINIMIZE, ShowWindow 100 SW_RESTORE, SetWindowPos 100 0 0 1920 1080])"
  by (simp add: startup_def two_monitors_def newWindow_def work_1920_def Width_def Height_def
      session0_def min_i32_def max_i32_def word_sless_alt)

lemma resolve_first_tile:
  "resolve_geometry work_1920 2 \<lparr>Left = 10, Top = 10, Right = 10, Bottom = 10\<rparr>
     = Inr (0, 0, 960, 540)"
  by (simp add: resolve_geometry_def work_1920_def Width_def Height_def
      signed_divide_int_def signed_modulo_int_def)

lemma resolve_first_tile_second:
  "resolve_geometry work_second 2 \<lparr>Left = 10, Top = 10, Right = 10, Bottom = 10\<rparr>
     = Inr (1920, 0, 960, 540)"
  by (simp add: resolve_geometry_def work_second_def Width_def Height_def
      signed_divide_int_def signed_modulo_int_def)

lemma main_two_monitors:
  "main two_monitors =
     Inr (\<lparr>info = work_1920, selecting = True,
           selection = \<lparr>Left = 10, Top = 10, Right = 10, Bottom = 10\<rparr>, tiles = 2\<rparr>,
          [],
          [ShowWindow 100 SW_MINIMIZE, ShowWindow 100 SW_RESTORE,
           SetWindowPos 100 0 0 1920 1080,
           InvalidateRect 100,
           ShowWindow 100 SW_MINIMIZE, ShowWindow 8 SW_RESTORE,
           SetWindowPos 8 0 0 960 540, WriteFile [2], CloseWindow 100])"
  apply (simp only: main_def startup_two_monitors)
  apply (simp add: two_monitors_def session0_def on_keydown_def on_lbuttondown_def
      on_lbuttonup_def mouse_10_10 resolve_first_tile)
  done

lemma run_two_monitors:
  "run_loop two_monitors 100 (session0 work_1920 3) [100, 8]
      [(WM_KEYDOWN, 0x32, 0), (WM_LBUTTONDOWN, 1, 0xA000A)] =
     Inr (\<lparr>info = work_1920, selecting = True,
           selection = \<lparr>Left = 10, Top = 10, Right = 10, Bottom = 10\<rparr>, tiles = 2\<rparr>,
          [100, 8], [InvalidateRect 100])"
  by (simp add: session0_def on_keydown_def on_lbuttondown_def mouse_10_10)

lemma run_drag:
  "run_loop two_monitors 100 (session0 work_1920 3) [100, 8]
      [(WM_LBUTTONDOWN, 1, 0x14001E)] =
     Inr (\<lparr>info = work_1920, selecting = True,
           selection = \<lparr>Left = 30, Top = 20, Right = 30, Bottom = 20\<rparr>, tiles = 3\<rparr>,
          [100, 8], [])"
  by (simp add: session0_def on_lbuttondown_def mouse_30_20)

lemma run_nothing:
  "run_loop two_monitors 100 (session0 work_1920 3) [100, 8] [] =
     Inr (session0 work_1920 3, [100, 8], [])"
  by simp

lemma startup_desktop_run:
  "startup desktop_run = Inr (100, session0 work_1920 3, [100, 5, 8],
     [ShowWindow 100 SW_MINIMIZE, ShowWindow 100 SW_RESTORE, SetWindowPos 100 0 0 1920 1080])"
  by (simp add: startup_def desktop_run_def two_monitors_def newWindow_def work_1920_def
      Width_def Height_def session0_def min_i32_def max_i32_def word_sless_alt)

lemma mouse_1919_10: "mouse_x 0xA077F = 1919" "mouse_y 0xA077F = 10"
  by (simp_all add: mouse_x_def mouse_y_def)

lemma mouse_1917_10: "mouse_x 0xA077D = 1917" "mouse_y 0xA077D = 10"
  by (simp_all add: mouse_x_def mouse_y_def)

section \<open>The work area of the resolution (C1)\<close>

text \<open>
  The claim C1 reads: on the transition to Done the geometry applied to the target window
  is computed from the work area of the target window's own monitor. It fails. With two
  monitors, the overlay shown on the first (work area at the origin) and the target window
  8 on the second (work area starting at x = 1920), a click at (10, 10) moves window 8 to
  (0, 0) with size 960 by 540; resolving against the work area of the monitor of window 8
  gives (1920, 0) instead.
\<close>

theorem target_monitor_counterexample:
  "main two_monitors =
     Inr (\<lparr>info = work_1920, selecting = True,
           selection = \<lparr>Left = 10, Top = 10, Right = 10, Bottom = 10\<rparr>, tiles = 2\<rparr>,
          [],
          [ShowWindow 100 SW_MINIMIZE, ShowWindow 100 SW_RESTORE,
           SetWindowPos 100 0 0 1920 1080,
           InvalidateRect 100,
           ShowWindow 100 SW_MINIMIZE, ShowWindow 8 SW_RESTORE,
           SetWindowPos 8 0 0 960 540, WriteFile [2], CloseWindow 100]) \<and>
   monitor_info two_monitors (monitor_from_window two_monitors 8) = Some work_second \<and>
   resolve_geometry work_second 2 \<lparr>Left = 10, Top = 10, Right = 10, Bottom = 10\<rparr>
     = Inr (1920, 0, 960, 540)"
  by (simp add: main_two_monitors resolve_first_tile_second) (simp add: two_monitors_def)

text \<open>
  C1 as amended: in every run, when the button-up handler resolves to a target window that
  is neither null nor the desktop and has a monitor, the geometry handed to
  \<^verbatim>\<open>SetWindowPos\<close> for the target is the one computed from the work area captured at
  start-up, that of the monitor under the window that was in the foreground then; the
  monitor of the target is only tested for existence.
\<close>

theorem geometry_uses_startup_work_area:
  assumes st: "startup env = Inr (window, s0, fg0, acts0)"
    and run: "run_loop env window s0 fg0 ms = Inr (s, fg, acts)"
    and sel: "selecting s" and p: "poll window fg = Some (w, fg')"
    and ok: "w \<noteq> 0" "w \<noteq> desktop env" "monitor_from_window env w \<noteq> 0"
    and g: "resolve_geometry (info s0) (tiles s) (selection s) = Inr (x, y, cx, cy)"
  shows "on_lbuttonup env window s fg =
           Inr (s, fg',
                [ShowWindow window SW_MINIMIZE, ShowWindow w SW_RESTORE,
                 SetWindowPos w x y cx cy, WriteFile [word_of_int (tiles s)],
                 CloseWindow window]) \<and>
         (\<exists>w0. poll window (foreground env) = Some (w0, fg0) \<and>
               monitor_info env (monitor_from_window env w0) = Some (info s0))"
proof -
  from run_loop_info [OF run] have "info s = info s0" .
  with sel p ok g have "on_lbuttonup env window s fg =
           Inr (s, fg',
                [ShowWindow window SW_MINIMIZE, ShowWindow w SW_RESTORE,
                 SetWindowPos w x y cx cy, WriteFile [word_of_int (tiles s)],
                 CloseWindow window])"
    by (simp add: on_lbuttonup_def)
  with startup_session [OF st] show ?thesis by blast
qed

theorem geometry_uses_startup_work_area_witness:
  "on_lbuttonup two_monitors 100
     \<lparr>info = work_1920, selecting = True,
      selection = \<lparr>Left = 10, Top = 10, Right = 10, Bottom = 10\<rparr>, tiles = 2\<rparr> [100, 8] =
     Inr (\<lparr>info = work_1920, selecting = True,
           selection = \<lparr>Left = 10, Top = 10, Right = 10, Bottom = 10\<rparr>, tiles = 2\<rparr>, [],
          [ShowWindow 100 SW_MINIMIZE, ShowWindow 8 SW_RESTORE,
           SetWindowPos 8 0 0 960 540, WriteFile [2], CloseWindow 100]) \<and>
   (\<exists>w0. poll 100 (foreground two_monitors) = Some (w0, [100, 8]) \<and>
         monitor_info two_monitors (monitor_from_window two_monitors w0) = Some work_1920)"
proof -
  let ?s = "\<lparr>info = work_1920, selecting = True,
             selection = \<lparr>Left = 10, Top = 10, Right = 10, Bottom = 10\<rparr>, tiles = 2\<rparr>"
  have sel: "selecting ?s" by simp
  have p: "poll 100 [100, 8 :: HWND] = Some (8, [])" by simp
  have ok: "(8 :: HWND) \<noteq> 0" "8 \<noteq> desktop two_monitors"
    "monitor_from_window two_monitors 8 \<noteq> 0"
    by (simp_all add: two_monitors_def)
  have g: "resolve_geometry (info (session0 work_1920 3)) (tiles ?s) (selection ?s)
             = Inr (0, 0, 960, 540)"
    by (simp add: session0_def resolve_first_tile)
  from geometry_uses_startup_work_area
         [OF startup_two_monitors run_two_monitors sel p ok g]
  show ?thesis by (simp add: session0_def)
qed

section \<open>The resolved geometry (C2)\<close>

text \<open>
  The claim C2 reads: the resolved geometry is exactly that of steps 1 to 4, with the
  clamped corner as bottom-right corner. It fails where the selection ends in the last
  column and the width leaves a remainder: on a work area 1921 wide with two tiles, a
  selection from (0, 0) to (1000, 100) gets width 1921, not the clamped 1920.
\<close>

theorem steps_1_to_4_counterexample:
  "inside_work_area work_1921 drag_1000 \<and>
   resolve_geometry work_1921 2 drag_1000 = Inr (0, 0, 1921, 540) \<and>
   geometry_steps_1_to_4 work_1921 2 drag_1000 = (0, 0, 1920, 540)"
  by (simp add: inside_work_area_def resolve_geometry_def geometry_steps_1_to_4_def
      work_1921_def drag_1000_def Width_def Height_def
      signed_divide_int_def signed_modulo_int_def)

text \<open>
  C2 as amended: for a tile count between 2 and 9, a work area at least as wide and as
  high as the tile count and a selection inside the work area, the handler computes
  exactly the geometry of steps 1 to 6 of the specification, step 5 included: the
  remainder of the width is added to the clamped right edge when the selection ends in
  column \<open>n - 1\<close>, and likewise for the height. Single-tile and multi-tile selections go
  through the same formulas.
\<close>

theorem resolve_geometry_formula:
  assumes "2 \<le> n" and "n \<le> 9"
    and "n \<le> sint (Width (RcWork mi))" and "n \<le> sint (Height (RcWork mi))"
    and "inside_work_area mi sel"
  shows "resolve_geometry mi n sel = Inr (spec_geometry mi n sel)"
  using assms by (intro resolve_geometry_eq) (simp_all add: inside_work_area_def)

theorem resolve_geometry_formula_witness:
  "resolve_geometry work_1921 2 drag_1000 = Inr (0, 0, 1921, 540)"
proof -
  have n: "2 \<le> (2 :: int)" "(2 :: int) \<le> 9" by simp_all
  have w: "2 \<le> sint (Width (RcWork work_1921))" and h: "2 \<le> sint (Height (RcWork work_1921))"
    by (simp_all add: work_1921_def Width_def Height_def)
  have i: "inside_work_area work_1921 drag_1000"
    by (simp add: inside_work_area_def work_1921_def drag_1000_def Width_def Height_def)
  have "spec_geometry work_1921 2 drag_1000 = (0, 0, 1921, 540)"
    by (simp add: spec_geometry_def work_1921_def drag_1000_def Width_def Height_def)
  with resolve_geometry_formula [OF n w h i] show ?thesis by simp
qed

section \<open>Remainder absorption (C3)\<close>

text \<open>
  C3: for a tile count between 2 and 9 and a work area at least as wide and as high as the
  tile count, the right edge of the resolved rectangle, relative to the work area, is the
  clamped edge of step 3 plus exactly \<open>width mod tileW\<close> when the selection's right edge is
  in column \<open>n - 1\<close>, and plus nothing in any other column; the same holds for the bottom
  edge and \<open>height mod tileH\<close>. The column is the quotient of Go's truncating division.
\<close>

theorem remainder_only_in_last_column:
  assumes "2 \<le> n" and "n \<le> 9"
    and "n \<le> sint (Width (RcWork mi))" and "n \<le> sint (Height (RcWork mi))"
  shows "\<exists>x y cx cy.
    resolve_geometry mi n sel = Inr (x, y, cx, cy) \<and>
    (let width = sint (Width (RcWork mi));
         height = sint (Height (RcWork mi));
         tileW = width div n;
         tileH = height div n;
         col = sint (Right sel) sdiv tileW;
         row = sint (Bottom sel) sdiv tileH
     in (x - sint (Left (RcWork mi))) + cx =
          min (col * tileW + tileW) width + (if col = n - 1 then width mod tileW else 0) \<and>
        (y - sint (Top (RcWork mi))) + cy =
          min (row * tileH + tileH) height + (if row = n - 1 then height mod tileH else 0))"
  using assms by (simp add: resolve_geometry_split Let_def)

theorem remainder_only_in_last_column_witness:
  "\<exists>x y cx cy. resolve_geometry work_1921 2 drag_1000 = Inr (x, y, cx, cy) \<and>
      x + cx = 1920 + 1 \<and> y + cy = 540"
proof -
  have n: "2 \<le> (2 :: int)" "(2 :: int) \<le> 9" by simp_all
  have w: "2 \<le> sint (Width (RcWork work_1921))" and h: "2 \<le> sint (Height (RcWork work_1921))"
    by (simp_all add: work_1921_def Width_def Height_def)
  from remainder_only_in_last_column [OF n w h, of drag_1000]
  show ?thesis
    by (simp add: work_1921_def drag_1000_def Width_def Height_def signed_divide_int_def)
qed

section \<open>The cell rectangle of the overlay (C4)\<close>

text \<open>
  The claim C4 reads: the rectangle painted for a cell is the tile rectangle inset by two
  pixels on each outer edge, four pixels less per axis. It fails: the paint loop adds 2 to
  the left and top edges and subtracts 4 from the right and bottom edges. For two tiles on
  a 1920 by 1080 work area the first cell is painted from (2, 2) to (956, 536), while the
  inset by two pixels would end at (958, 538).
\<close>

theorem cell_inset_counterexample:
  "on_paint (session0 work_1920 2) =
     Inr [FillRect \<lparr>Left = 0, Top = 0, Right = 1920, Bottom = 1080\<rparr> COLOR_HIGHLIGHT,
          FillRect \<lparr>Left = 2, Top = 2, Right = 956, Bottom = 536\<rparr> COLOR_BTNFACE,
          FillRect \<lparr>Left = 2, Top = 542, Right = 956, Bottom = 1076\<rparr> COLOR_BTNFACE,
          FillRect \<lparr>Left = 962, Top = 2, Right = 1916, Bottom = 536\<rparr> COLOR_BTNFACE,
          FillRect \<lparr>Left = 962, Top = 542, Right = 1916, Bottom = 1076\<rparr> COLOR_BTNFACE] \<and>
   spec_CellRect work_1920 2 0 0 = \<lparr>Left = 2, Top = 2, Right = 958, Bottom = 538\<rparr>"
  by (simp add: on_paint_def session0_def work_1920_def Width_def Height_def
      signed_divide_int_def upto_rec1 paint_cell_def cell_rect_def overlap_def zero_RECT_def
      spec_CellRect_def word_sle_eq word_sless_alt)

text \<open>
  C4 as amended: for a tile count between 2 and 9, a work area of non-negative width and
  height and a cell \<open>(x, y)\<close> with \<open>0 \<le> x, y < n\<close>, the paint handler fills the rectangle
  with left and top edges 2 pixels inside the tile and right and bottom edges 4 pixels
  inside it, so it is 6 pixels narrower and lower than the tile.
\<close>

theorem cell_rect_inset:
  assumes n: "2 \<le> tiles s" "tiles s \<le> 9"
    and w: "0 \<le> sint (Width (RcWork (info s)))" and h: "0 \<le> sint (Height (RcWork (info s)))"
    and x: "0 \<le> x" "x < tiles s" and y: "0 \<le> y" "y < tiles s"
  shows "\<exists>acts r c.
    on_paint s = Inr acts \<and> FillRect r c \<in> set acts \<and>
    (let tileW = sint (Width (RcWork (info s))) div tiles s;
         tileH = sint (Height (RcWork (info s))) div tiles s
     in r = cell_rect tileW tileH x y \<and>
        sint (Left r) = x * tileW + 2 \<and> sint (Top r) = y * tileH + 2 \<and>
        sint (Right r) = (x + 1) * tileW - 4 \<and> sint (Bottom r) = (y + 1) * tileH - 4 \<and>
        sint (Right r) - sint (Left r) = tileW - 6 \<and>
        sint (Bottom r) - sint (Top r) = tileH - 6)"
proof -
  let ?W = "Width (RcWork (info s))" and ?H = "Height (RcWork (info s))"
  let ?tw = "sint ?W div tiles s" and ?th = "sint ?H div tiles s"
  let ?r = "cell_rect ?tw ?th x y"
  let ?cells = "concat (map (\<lambda>x. map (\<lambda>y. paint_cell (selection s) ?tw ?th x y)
                                      [0 .. tiles s - 1]) [0 .. tiles s - 1])"
  from n have n0: "tiles s \<noteq> 0" "0 < tiles s" by simp_all
  have dW: "sint ?W sdiv tiles s = ?tw" and dH: "sint ?H sdiv tiles s = ?th"
    using w h n0 by (simp_all add: sdiv_nonneg)
  have paint: "on_paint s =
      Inr (FillRect \<lparr>Left = 0, Top = 0, Right = ?W, Bottom = ?H\<rparr> COLOR_HIGHLIGHT # ?cells)"
    using n0 by (simp add: on_paint_def dW dH Let_def)
  have "paint_cell (selection s) ?tw ?th x y \<in> set ?cells"
    using x y by (intro grid_member) simp_all
  then have mem: "FillRect ?r (if overlap ?r (selection s) then COLOR_DESKTOP else COLOR_BTNFACE)
      \<in> set (FillRect \<lparr>Left = 0, Top = 0, Right = ?W, Bottom = ?H\<rparr> COLOR_HIGHLIGHT # ?cells)"
    by (simp add: paint_cell_def Let_def)
  have l: "sint (Left ?r) = x * ?tw + 2"
    using cell_left_sint [OF n w x] by (simp add: cell_rect_def)
  have t: "sint (Top ?r) = y * ?th + 2"
    using cell_left_sint [OF n h y] by (simp add: cell_rect_def)
  have r: "sint (Right ?r) = (x + 1) * ?tw - 4"
    using cell_right_sint [OF n w x] by (simp add: cell_rect_def)
  have b: "sint (Bottom ?r) = (y + 1) * ?th - 4"
    using cell_right_sint [OF n h y] by (simp add: cell_rect_def)
  have dx: "sint (Right ?r) - sint (Left ?r) = ?tw - 6"
    unfolding l r by (simp add: algebra_simps)
  have dy: "sint (Bottom ?r) - sint (Top ?r) = ?th - 6"
    unfolding t b by (simp add: algebra_simps)
  show ?thesis
    unfolding paint Let_def
    using mem l t r b dx dy by blast
qed

theorem cell_rect_inset_witness:
  "\<exists>acts r c. on_paint (session0 work_1920 2) = Inr acts \<and> FillRect r c \<in> set acts \<and>
     r = cell_rect 960 540 1 0 \<and> sint (Left r) = 962 \<and> sint (Top r) = 2 \<and>
     sint (Right r) = 1916 \<and> sint (Bottom r) = 536"
proof -
  let ?s = "session0 work_1920 2"
  have n: "2 \<le> tiles ?s" "tiles ?s \<le> 9" by (simp_all add: session0_def)
  have w: "0 \<le> sint (Width (RcWork (info ?s)))" and h: "0 \<le> sint (Height (RcWork (info ?s)))"
    by (simp_all add: session0_def work_1920_def Width_def Height_def)
  have x: "0 \<le> (1 :: int)" "1 < tiles ?s" and y: "0 \<le> (0 :: int)" "0 < tiles ?s"
    by (simp_all add: session0_def)
  have sz: "sint (Width (RcWork (info ?s))) div tiles ?s = 960"
    "sint (Height (RcWork (info ?s))) div tiles ?s = 540"
    by (simp_all add: session0_def work_1920_def Width_def Height_def)
  from cell_rect_inset [OF n w h x y]
  show ?thesis
    unfolding sz Let_def by auto
qed

section \<open>The overlap test (C5)\<close>

text \<open>
  C5: \<^verbatim>\<open>overlap(cell, selection)\<close> is true exactly when
  \<open>selection.right \<ge> cell.left\<close>, \<open>selection.left < cell.right\<close>,
  \<open>selection.bottom \<ge> cell.top\<close> and \<open>selection.top < cell.bottom\<close>, as signed values; the
  paint loop picks the colour of each cell by this test.
\<close>

theorem overlap_test:
  "(overlap cell sel \<longleftrightarrow>
      sint (Right sel) \<ge> sint (Left cell) \<and> sint (Left sel) < sint (Right cell) \<and>
      sint (Bottom sel) \<ge> sint (Top cell) \<and> sint (Top sel) < sint (Bottom cell)) \<and>
   paint_cell sel w h x y =
     FillRect (cell_rect w h x y)
       (if sint (Right sel) \<ge> sint (Left (cell_rect w h x y)) \<and>
           sint (Left sel) < sint (Right (cell_rect w h x y)) \<and>
           sint (Bottom sel) \<ge> sint (Top (cell_rect w h x y)) \<and>
           sint (Top sel) < sint (Bottom (cell_rect w h x y))
        then COLOR_DESKTOP else COLOR_BTNFACE)"
  by (simp add: paint_cell_def Let_def overlap_def word_sle_eq word_sless_alt)

section \<open>A click without movement (C6)\<close>

text \<open>
  C6 says that pressing and releasing at one point inside the work area resolves to a
  rectangle of positive size that is one tile's remainder-adjusted bounds. The code gives
  the pixels left over by the integer division to the last column (lines 85 to 90) and
  clamps a right edge that lies in them (lines 78 to 83), but it snaps a left edge that lies
  in them to a column of its own. On a work area of 1920 by 1080 with 7 tiles of width 274
  the last tile is 276 wide and covers the pixels 1644 to 1919. A click at x = 1919 moves
  the target to (1918, 0) with size 2 by 154, which is none of the 49 tiles, while a click
  at x = 1917 and a drag from x = 1700 to x = 1919 both give the last tile
  (1644, 0, 276, 154).
\<close>

theorem click_in_leftover_strip:
  "wndproc two_monitors 100 (on_lbuttondown (session0 work_1920 7) 0xA077F) [8]
       (WM_LBUTTONUP, 0, 0xA077F) =
     Inr (\<lparr>info = work_1920, selecting = True,
           selection = \<lparr>Left = 1919, Top = 10, Right = 1919, Bottom = 10\<rparr>, tiles = 7\<rparr>,
          [],
          [ShowWindow 100 SW_MINIMIZE, ShowWindow 8 SW_RESTORE,
           SetWindowPos 8 1918 0 2 154, WriteFile [7], CloseWindow 100]) \<and>
   (1918, 0, 2, 154) \<notin> set (all_tile_bounds work_1920 7) \<and>
   tile_bounds work_1920 7 6 0 = (1644, 0, 276, 154) \<and>
   wndproc two_monitors 100 (on_lbuttondown (session0 work_1920 7) 0xA077D) [8]
       (WM_LBUTTONUP, 0, 0xA077D) =
     Inr (\<lparr>info = work_1920, selecting = True,
           selection = \<lparr>Left = 1917, Top = 10, Right = 1917, Bottom = 10\<rparr>, tiles = 7\<rparr>,
          [],
          [ShowWindow 100 SW_MINIMIZE, ShowWindow 8 SW_RESTORE,
           SetWindowPos 8 1644 0 276 154, WriteFile [7], CloseWindow 100]) \<and>
   resolve_geometry work_1920 7 \<lparr>Left = 1700, Top = 10, Right = 1919, Bottom = 10\<rparr>
     = Inr (1644, 0, 276, 154)"
proof -
  have g: "resolve_geometry work_1920 7 \<lparr>Left = 1919, Top = 10, Right = 1919, Bottom = 10\<rparr>
      = Inr (1918, 0, 2, 154)"
    by (simp add: resolve_geometry_def work_1920_def Width_def Height_def
        signed_divide_int_def signed_modulo_int_def)
  have g': "resolve_geometry work_1920 7 \<lparr>Left = 1917, Top = 10, Right = 1917, Bottom = 10\<rparr>
      = Inr (1644, 0, 276, 154)"
    by (simp add: resolve_geometry_def work_1920_def Width_def Height_def
        signed_divide_int_def signed_modulo_int_def)
  have d: "resolve_geometry work_1920 7 \<lparr>Left = 1700, Top = 10, Right = 1919, Bottom = 10\<rparr>
      = Inr (1644, 0, 276, 154)"
    by (simp add: resolve_geometry_def work_1920_def Width_def Height_def
        signed_divide_int_def signed_modulo_int_def)
  have t: "tile_bounds work_1920 7 6 0 = (1644, 0, 276, 154)"
    by (simp add: tile_bounds_def work_1920_def Width_def Height_def)
  have n: "(1918, 0, 2, 154) \<notin> set (all_tile_bounds work_1920 7)"
    by (simp add: all_tile_bounds_def tile_bounds_def work_1920_def Width_def Height_def
        upto_rec1)
  have h: "wndproc two_monitors 100 (on_lbuttondown (session0 work_1920 7) 0xA077F) [8]
       (WM_LBUTTONUP, 0, 0xA077F) =
     Inr (\<lparr>info = work_1920, selecting = True,
           selection = \<lparr>Left = 1919, Top = 10, Right = 1919, Bottom = 10\<rparr>, tiles = 7\<rparr>,
          [],
          [ShowWindow 100 SW_MINIMIZE, ShowWindow 8 SW_RESTORE,
           SetWindowPos 8 1918 0 2 154, WriteFile [7], CloseWindow 100])"
    by (simp add: on_lbuttondown_def session0_def mouse_1919_10 on_lbuttonup_def g)
       (simp add: two_monitors_def)
  have h': "wndproc two_monitors 100 (on_lbuttondown (session0 work_1920 7) 0xA077D) [8]
       (WM_LBUTTONUP, 0, 0xA077D) =
     Inr (\<lparr>info = work_1920, selecting = True,
           selection = \<lparr>Left = 1917, Top = 10, Right = 1917, Bottom = 10\<rparr>, tiles = 7\<rparr>,
          [],
          [ShowWindow 100 SW_MINIMIZE, ShowWindow 8 SW_RESTORE,
           SetWindowPos 8 1644 0 276 154, WriteFile [7], CloseWindow 100])"
    by (simp add: on_lbuttondown_def session0_def mouse_1917_10 on_lbuttonup_def g')
       (simp add: two_monitors_def)
  from h n t h' d show ?thesis by blast
qed

text \<open>
  Everywhere else the code does what C6 says: the rectangle has positive width and height
  at every point of the work area, and on each axis where the point lies in a column or row
  below \<open>n\<close> it starts at that tile and has that tile's remainder-adjusted extent.
\<close>

lemma zero_area_drag:
  assumes n: "2 \<le> tiles s" "tiles s \<le> 9"
    and w: "tiles s \<le> sint (Width (RcWork (info s)))"
    and h: "tiles s \<le> sint (Height (RcWork (info s)))"
    and px: "0 \<le> sint (mouse_x l)" "sint (mouse_x l) < sint (Width (RcWork (info s)))"
    and py: "0 \<le> sint (mouse_y l)" "sint (mouse_y l) < sint (Height (RcWork (info s)))"
    and p: "poll window fg = Some (target, fg')"
    and ok: "target \<noteq> 0" "target \<noteq> desktop env" "monitor_from_window env target \<noteq> 0"
  shows "\<exists>x y cx cy.
    wndproc env window (on_lbuttondown s l) fg (WM_LBUTTONUP, wp, lp) =
      Inr (on_lbuttondown s l, fg',
           [ShowWindow window SW_MINIMIZE, ShowWindow target SW_RESTORE,
            SetWindowPos target x y cx cy, WriteFile [word_of_int (tiles s)],
            CloseWindow window]) \<and>
    0 < cx \<and> 0 < cy \<and>
    (let width = sint (Width (RcWork (info s)));
         height = sint (Height (RcWork (info s)));
         tileW = width div tiles s;
         tileH = height div tiles s;
         col = sint (mouse_x l) div tileW;
         row = sint (mouse_y l) div tileH
     in (col < tiles s \<longrightarrow> x = sint (Left (RcWork (info s))) + col * tileW \<and>
                      cx = tileW + (if col = tiles s - 1 then width mod tileW else 0)) \<and>
        (row < tiles s \<longrightarrow> y = sint (Top (RcWork (info s))) + row * tileH \<and>
                      cy = tileH + (if row = tiles s - 1 then height mod tileH else 0)))"
proof -
  let ?s = "on_lbuttondown s l"
  from zero_area_geometry [OF n w h px py, where s = s]
  obtain x y cx cy where
    g: "resolve_geometry (info s) (tiles s) (selection ?s) = Inr (x, y, cx, cy)" and
    rest: "0 < cx \<and> 0 < cy \<and>
    (let width = sint (Width (RcWork (info s)));
         height = sint (Height (RcWork (info s)));
         tileW = width div tiles s;
         tileH = height div tiles s;
         col = sint (mouse_x l) div tileW;
         row = sint (mouse_y l) div tileH
     in (col < tiles s \<longrightarrow> x = sint (Left (RcWork (info s))) + col * tileW \<and>
                      cx = tileW + (if col = tiles s - 1 then width mod tileW else 0)) \<and>
        (row < tiles s \<longrightarrow> y = sint (Top (RcWork (info s))) + row * tileH \<and>
                      cy = tileH + (if row = tiles s - 1 then height mod tileH else 0)))"
    by blast
  from g have g': "resolve_geometry (info ?s) (tiles ?s) (selection ?s) = Inr (x, y, cx, cy)"
    by (simp add: on_lbuttondown_fields)
  from on_lbuttonup_done [OF on_lbuttondown_selecting p ok g']
  have "wndproc env window ?s fg (WM_LBUTTONUP, wp, lp) =
      Inr (?s, fg',
           [ShowWindow window SW_MINIMIZE, ShowWindow target SW_RESTORE,
            SetWindowPos target x y cx cy, WriteFile [word_of_int (tiles s)],
            CloseWindow window])"
    by (simp add: on_lbuttondown_fields)
  with rest show ?thesis by blast
qed

lemma zero_area_drag_example:
  "\<exists>x y cx cy.
     wndproc two_monitors 100 (on_lbuttondown (session0 work_1921 2) 0xA000A) [8]
       (WM_LBUTTONUP, 0, 0xA000A) =
      Inr (on_lbuttondown (session0 work_1921 2) 0xA000A, [],
           [ShowWindow 100 SW_MINIMIZE, ShowWindow 8 SW_RESTORE,
            SetWindowPos 8 x y cx cy, WriteFile [2], CloseWindow 100]) \<and>
     0 < cx \<and> 0 < cy \<and> x = 0 \<and> cx = 960 \<and> y = 0 \<and> cy = 540"
proof -
  let ?s = "session0 work_1921 2"
  have n: "2 \<le> tiles ?s" "tiles ?s \<le> 9" by (simp_all add: session0_def)
  have w: "tiles ?s \<le> sint (Width (RcWork (info ?s)))"
    and h: "tiles ?s \<le> sint (Height (RcWork (info ?s)))"
    by (simp_all add: session0_def work_1921_def Width_def Height_def)
  have px: "0 \<le> sint (mouse_x 0xA000A)"
      "sint (mouse_x 0xA000A) < sint (Width (RcWork (info ?s)))"
    and py: "0 \<le> sint (mouse_y 0xA000A)"
      "sint (mouse_y 0xA000A) < sint (Height (RcWork (info ?s)))"
    by (simp_all add: mouse_10_10 session0_def work_1921_def Width_def Height_def)
  have p: "poll 100 [8 :: HWND] = Some (8, [])" by simp
  have ok: "(8 :: HWND) \<noteq> 0" "8 \<noteq> desktop two_monitors"
    "monitor_from_window two_monitors 8 \<noteq> 0"
    by (simp_all add: two_monitors_def)
  have sz: "sint (Width (RcWork (info ?s))) = 1921" "sint (Height (RcWork (info ?s))) = 1080"
    "sint (Left (RcWork (info ?s))) = 0" "sint (Top (RcWork (info ?s))) = 0" "tiles ?s = 2"
    by (simp_all add: session0_def work_1921_def Width_def Height_def)
  from zero_area_drag [OF n w h px py p ok, where wp = 0 and lp = "0xA000A"]
  show ?thesis
    unfolding sz mouse_10_10 Let_def by simp
qed

section \<open>The selection rectangle is normalized (C7)\<close>

text \<open>
  C7: in every state reached by the message loop after start-up the selection is
  normalized. Button-down sets it to the degenerate rectangle at the pointer; a mouse move
  while selecting replaces it by the bounding box of the rectangle and the pointer, taking
  the minimum of the left and top and the maximum of the right and bottom edges, so that it
  never shrinks and stays normalized; the handler requests a redraw exactly when the
  rectangle changed; and every message leaves the selection normalized.
\<close>

theorem selection_always_normalized:
  assumes "startup env = Inr (window, s0, fg0, acts0)"
    and "run_loop env window s0 fg0 ms = Inr (s, fg, acts)"
  shows "normalized (selection s) \<and>
     selection (on_lbuttondown s l) =
       \<lparr>Left = mouse_x l, Top = mouse_y l, Right = mouse_x l, Bottom = mouse_y l\<rparr> \<and>
     normalized (selection (on_lbuttondown s l)) \<and>
     (selecting s \<longrightarrow>
        sint (Left (selection (fst (on_mousemove window s l))))
          = min (sint (Left (selection s))) (sint (mouse_x l)) \<and>
        sint (Top (selection (fst (on_mousemove window s l))))
          = min (sint (Top (selection s))) (sint (mouse_y l)) \<and>
        sint (Right (selection (fst (on_mousemove window s l))))
          = max (sint (Right (selection s))) (sint (mouse_x l)) \<and>
        sint (Bottom (selection (fst (on_mousemove window s l))))
          = max (sint (Bottom (selection s))) (sint (mouse_y l))) \<and>
     normalized (selection (fst (on_mousemove window s l))) \<and>
     snd (on_mousemove window s l) =
       (if selection (fst (on_mousemove window s l)) \<noteq> selection s
        then [InvalidateRect window] else []) \<and>
     (wndproc env window s fg m = Inr (s', fg', acts') \<longrightarrow> normalized (selection s'))"
proof -
  from startup_session [OF assms(1)] have "normalized (selection s0)"
    by (simp add: normalized_sint zero_RECT_def)
  with run_loop_normalized [OF assms(2)] have n: "normalized (selection s)" .
  from n have mv: "normalized (selection (fst (on_mousemove window s l)))"
    by (rule on_mousemove_normalized)
  from n have step: "wndproc env window s fg m = Inr (s', fg', acts') \<longrightarrow>
      normalized (selection s')"
    by (auto dest: wndproc_normalized)
  show ?thesis
    using n mv step on_lbuttondown_selection [of s l] on_lbuttondown_normalized [of s l]
      on_mousemove_box [of s window l] on_mousemove_notify [of window s l]
    by blast
qed

theorem selection_always_normalized_witness:
  "normalized \<lparr>Left = 30, Top = 20, Right = 30, Bottom = 20\<rparr> \<and>
   on_mousemove 100
     \<lparr>info = work_1920, selecting = True,
      selection = \<lparr>Left = 30, Top = 20, Right = 30, Bottom = 20\<rparr>, tiles = 3\<rparr> 0xA000A =
     (\<lparr>info = work_1920, selecting = True,
       selection = \<lparr>Left = 10, Top = 10, Right = 30, Bottom = 20\<rparr>, tiles = 3\<rparr>,
      [InvalidateRect 100]) \<and>
   normalized \<lparr>Left = 10, Top = 10, Right = 30, Bottom = 20\<rparr>"
proof -
  let ?s = "\<lparr>info = work_1920, selecting = True,
       selection = \<lparr>Left = 30, Top = 20, Right = 30, Bottom = 20\<rparr>, tiles = 3\<rparr>"
  have mv: "on_mousemove 100 ?s 0xA000A =
     (\<lparr>info = work_1920, selecting = True,
       selection = \<lparr>Left = 10, Top = 10, Right = 30, Bottom = 20\<rparr>, tiles = 3\<rparr>,
      [InvalidateRect 100])"
    by (simp add: on_mousemove_def mouse_10_10 min_i32_def max_i32_def word_sless_alt)
  from selection_always_normalized [OF startup_two_monitors run_drag, where l = "0xA000A"]
  show ?thesis
    by (simp add: mv)
qed

section \<open>The tile count stays between 2 and 9 (C8)\<close>

text \<open>
  C8: after start-up the tile count is between 2 and 9: it is 2 when the settings file
  cannot be read and the first byte clamped to 2..9 when it can. It stays in this range in
  every state reached by the message loop, and a message changes it only if it is a key-down
  of one of the keys 2 to 9 while no selection is in progress, to the digit of the key.
\<close>

theorem tiles_always_in_range:
  assumes "startup env = Inr (window, s0, fg0, acts0)"
    and "run_loop env window s0 fg0 ms = Inr (s, fg, acts)"
  shows "2 \<le> tiles s0 \<and> tiles s0 \<le> 9 \<and>
     (settings_file env = None \<longrightarrow> tiles s0 = 2) \<and>
     (settings_file env = Some (b # bs) \<longrightarrow> tiles s0 = min 9 (max 2 (uint b))) \<and>
     2 \<le> tiles s \<and> tiles s \<le> 9 \<and>
     (wndproc env window s fg (k, w, l) = Inr (s', fg', acts') \<and> tiles s' \<noteq> tiles s \<longrightarrow>
        k = WM_KEYDOWN \<and> \<not> selecting s \<and> 0x32 \<le> w \<and> w \<le> 0x39 \<and>
        tiles s' = uint w - 48 \<and> 2 \<le> tiles s' \<and> tiles s' \<le> 9)"
proof -
  from startup_session [OF assms(1)]
  have rd: "read_settings (settings_file env) 2 = Inr (tiles s0)" by simp
  then have r0: "2 \<le> tiles s0 \<and> tiles s0 \<le> 9"
    by (rule read_settings_range)
  from rd have none: "settings_file env = None \<longrightarrow> tiles s0 = 2"
    by auto
  from rd have some: "settings_file env = Some (b # bs) \<longrightarrow> tiles s0 = min 9 (max 2 (uint b))"
    by (auto simp add: clamp_byte)
  from run_loop_tiles [OF assms(2) r0] have r: "2 \<le> tiles s \<and> tiles s \<le> 9" .
  have chg: "wndproc env window s fg (k, w, l) = Inr (s', fg', acts') \<and> tiles s' \<noteq> tiles s \<longrightarrow>
        k = WM_KEYDOWN \<and> \<not> selecting s \<and> 0x32 \<le> w \<and> w \<le> 0x39 \<and>
        tiles s' = uint w - 48 \<and> 2 \<le> tiles s' \<and> tiles s' \<le> 9"
    using wndproc_tiles_change [of env window s fg k w l s' fg' acts']
      wndproc_tiles_range [of env window s fg "(k, w, l)" s' fg' acts'] r
    by blast
  from r0 none some r chg show ?thesis by blast
qed

theorem tiles_always_in_range_witness:
  "2 \<le> tiles (session0 work_1920 3) \<and> tiles (session0 work_1920 3) \<le> 9 \<and>
   tiles (session0 work_1920 3) = min 9 (max 2 (uint (3 :: byte))) \<and>
   \<not> selecting (session0 work_1920 3) \<and>
   tiles (session0 work_1920 9) = uint (0x39 :: uintptr) - 48"
proof -
  have k: "wndproc two_monitors 100 (session0 work_1920 3) [100, 8] (WM_KEYDOWN, 0x39, 0) =
     Inr (session0 work_1920 9, [100, 8], [InvalidateRect 100])"
    by (simp add: on_keydown_def session0_def)
  have f: "settings_file two_monitors = Some (3 # [])"
    by (simp add: two_monitors_def)
  have ne: "tiles (session0 work_1920 9) \<noteq> tiles (session0 work_1920 3)"
    by (simp add: session0_def)
  from tiles_always_in_range [OF startup_two_monitors run_nothing,
      where b = 3 and bs = "[]" and k = WM_KEYDOWN and w = "0x39" and l = 0
        and s' = "session0 work_1920 9" and fg' = "[100, 8]" and acts' = "[InvalidateRect 100]"]
    k f ne
  show ?thesis by blast
qed

section \<open>Abort on the desktop, no window or no monitor (C9)\<close>

text \<open>
  C9: in a run of the program where the message loop reaches a button-up while selecting and
  the poll yields no window, the desktop or a window without monitor, the handler minimizes
  and closes the overlay and the run ends there, whatever messages were still queued. The
  message loop has issued no \<^verbatim>\<open>SetWindowPos\<close> at all, and the only one of the whole run is
  the placement of the overlay itself at start-up: no other window is moved or resized.
\<close>

theorem abort_without_geometry:
  assumes st: "startup env = Inr (window, s0, fg0, acts0)"
    and msgs: "messages env = pre @ (WM_LBUTTONUP, wp, lp) # post"
    and pre: "RunMainLoop env window s0 fg0 pre = Inr (s, fg, acts)"
    and running: "\<not> list_ex ends_loop acts"
    and sel: "selecting s" and p: "poll window fg = Some (w, fg')"
    and ab: "w = 0 \<or> w = desktop env \<or> monitor_from_window env w = 0"
  shows "main env =
           Inr (s, fg', acts0 @ acts @ [ShowWindow window SW_MINIMIZE, CloseWindow window]) \<and>
         filter is_SetWindowPos (acts @ [ShowWindow window SW_MINIMIZE, CloseWindow window]) = [] \<and>
         filter is_SetWindowPos
             (acts0 @ acts @ [ShowWindow window SW_MINIMIZE, CloseWindow window]) =
           [SetWindowPos window
              (sint (Left (RcWork (info s0)))) (sint (Top (RcWork (info s0))))
              (sint (Width (RcWork (info s0)))) (sint (Height (RcWork (info s0))))]"
proof -
  let ?abort = "[ShowWindow window SW_MINIMIZE, CloseWindow window]"
  from on_lbuttonup_abort [OF sel p ab]
  have up: "RunMainLoop env window s fg ((WM_LBUTTONUP, wp, lp) # post) = Inr (s, fg', ?abort)"
    by simp
  from RunMainLoop_append [OF pre running, of "(WM_LBUTTONUP, wp, lp) # post"] up
  have loop: "RunMainLoop env window s0 fg0 (messages env) = Inr (s, fg', acts @ ?abort)"
    by (simp add: msgs)
  with st have m: "main env = Inr (s, fg', acts0 @ acts @ ?abort)"
    by (simp add: main_def)
  from RunMainLoop_no_geometry [OF pre running]
  have quiet: "filter is_SetWindowPos (acts @ ?abort) = []" by simp
  from startup_actions [OF st] quiet
  have all: "filter is_SetWindowPos (acts0 @ acts @ ?abort) =
           [SetWindowPos window
              (sint (Left (RcWork (info s0)))) (sint (Top (RcWork (info s0))))
              (sint (Width (RcWork (info s0)))) (sint (Height (RcWork (info s0))))]"
    by simp
  from m quiet all show ?thesis by blast
qed

theorem abort_without_geometry_witness:
  "main desktop_run =
     Inr (\<lparr>info = work_1920, selecting = True,
           selection = \<lparr>Left = 10, Top = 10, Right = 10, Bottom = 10\<rparr>, tiles = 3\<rparr>,
          [8],
          [ShowWindow 100 SW_MINIMIZE, ShowWindow 100 SW_RESTORE,
           SetWindowPos 100 0 0 1920 1080,
           ShowWindow 100 SW_MINIMIZE, CloseWindow 100]) \<and>
   filter is_SetWindowPos
     [ShowWindow 100 SW_MINIMIZE, ShowWindow 100 SW_RESTORE, SetWindowPos 100 0 0 1920 1080,
      ShowWindow 100 SW_MINIMIZE, CloseWindow 100] = [SetWindowPos 100 0 0 1920 1080]"
proof -
  let ?s = "\<lparr>info = work_1920, selecting = True,
       selection = \<lparr>Left = 10, Top = 10, Right = 10, Bottom = 10\<rparr>, tiles = 3\<rparr>"
  have msgs: "messages desktop_run =
      [(WM_LBUTTONDOWN, 1, 0xA000A)] @ (WM_LBUTTONUP, 0, 0xA000A) # [(WM_LBUTTONUP, 0, 0xA000A)]"
    by (simp add: desktop_run_def)
  have pre: "RunMainLoop desktop_run 100 (session0 work_1920 3) [100, 5, 8]
      [(WM_LBUTTONDOWN, 1, 0xA000A)] = Inr (?s, [100, 5, 8], [])"
    by (simp add: session0_def on_lbuttondown_def mouse_10_10)
  have running: "\<not> list_ex ends_loop []" by simp
  have sel: "selecting ?s" by simp
  have p: "poll 100 [100, 5, 8 :: HWND] = Some (5, [8])" by simp
  have ab: "(5 :: HWND) = 0 \<or> 5 = desktop desktop_run \<or> monitor_from_window desktop_run 5 = 0"
    by (simp add: desktop_run_def two_monitors_def)
  from abort_without_geometry [OF startup_desktop_run msgs pre running sel p ab]
  show ?thesis
    by (simp add: session0_def work_1920_def Width_def Height_def)
qed

section \<open>The settings file is indexed without a length check (C10)\<close>

text \<open>
  C10: when the settings file is read without error, its first byte is accessed: for a
  non-empty file the tile count becomes the byte clamped to 2..9; for an empty file the
  index is out of range and start-up panics; a read error leaves the tile count alone.
\<close>

theorem settings_first_byte_unchecked:
  "read_settings (Some (b # bs)) t = Inr (min 9 (max 2 (uint b))) \<and>
   read_settings (Some []) t = Inl IndexOutOfRange \<and>
   read_settings None t = Inr t \<and>
   (class_atom env \<noteq> 0 \<and> created_window env \<noteq> 0 \<and> settings_file env = Some []
      \<longrightarrow> startup env = Inl IndexOutOfRange)"
  by (simp add: clamp_byte startup_def newWindow_def)

theorem settings_first_byte_unchecked_witness:
  "startup (two_monitors\<lparr>settings_file := Some []\<rparr>) = Inl IndexOutOfRange \<and>
   read_settings (Some [200]) 2 = Inr 9"
  using settings_first_byte_unchecked [of 200 "[]" 2 "two_monitors\<lparr>settings_file := Some []\<rparr>"]
  by (simp add: two_monitors_def)

end
